theory Spec2Isabelle
  imports Main "HOL-Library.Word" "HOL-Library.List_Lexorder"
begin

section \<open>Strings and the path module\<close>

text \<open>
  A JavaScript string is a sequence of 16-bit code units (UTF-16) and is modelled as the
  list of its code units. Comparison of two strings (the default comparator of
  \<^verbatim>\<open>Array.prototype.sort\<close> on an array of strings) is the lexicographic order on the code
  units. \<open>js\<close> gives the string of a literal written in characters below U+0100, each
  character being one code unit.
\<close>

type_synonym code_unit = "16 word"

type_synonym jsstring = "code_unit list"

definition js :: "string \<Rightarrow> jsstring" where
  "js s = map of_char s"

definition newline :: jsstring where
  "newline = [0x0A]"

text \<open>\<^verbatim>\<open>String.prototype.includes\<close>: the second string occurs in the first as a contiguous run.\<close>

fun str_includes :: "jsstring \<Rightarrow> jsstring \<Rightarrow> bool" where
  "str_includes [] t = (t = [])"
| "str_includes (c # cs) t = (take (length t) (c # cs) = t \<or> str_includes cs t)"

text \<open>\<^verbatim>\<open>Array.prototype.join\<close> on an array of strings.\<close>

fun join :: "jsstring \<Rightarrow> jsstring list \<Rightarrow> jsstring" where
  "join s [] = []"
| "join s [x] = x"
| "join s (x # y # ys) = x @ s @ join s (y # ys)"

text \<open>
  \<^verbatim>\<open>String.prototype.toLowerCase\<close>. On a string whose code units are all ASCII the result
  has the letters \<^verbatim>\<open>A\<close> to \<^verbatim>\<open>Z\<close> replaced by \<^verbatim>\<open>a\<close> to \<^verbatim>\<open>z\<close> and every other code unit kept.
  On any other string the result is the one the case mapping of the Unicode standard
  gives; this mapping is not written out but is the parameter \<open>unicode_lower\<close> of every
  function that calls \<open>toLowerCase\<close>, so what is proved holds whatever the mapping is.
\<close>

definition lower_unit :: "code_unit \<Rightarrow> code_unit" where
  "lower_unit c = (if 0x41 \<le> c \<and> c \<le> 0x5A then c + 0x20 else c)"

definition toLowerCase :: "(jsstring \<Rightarrow> jsstring) \<Rightarrow> jsstring \<Rightarrow> jsstring" where
  "toLowerCase unicode_lower s =
     (if \<forall>c \<in> set s. c < 0x80 then map lower_unit s else unicode_lower s)"

text \<open>
  \<^verbatim>\<open>path.join(dir, file)\<close> of the POSIX path module, for the arguments the program
  gives it: \<open>dir\<close> is \<^verbatim>\<open>'.'\<close> or an earlier result of \<open>path_join\<close>, and \<open>file\<close> is a name
  returned by \<^verbatim>\<open>readdirSync\<close> (not empty, without \<^verbatim>\<open>/\<close>, neither \<^verbatim>\<open>.\<close> nor \<^verbatim>\<open>..\<close>).
  The module normalises the joined path, so the leading \<^verbatim>\<open>./\<close> of \<^verbatim>\<open>./name\<close> is dropped.
\<close>

definition path_join :: "jsstring \<Rightarrow> jsstring \<Rightarrow> jsstring" where
  "path_join dir file = (if dir = js ''.'' then file else dir @ js ''/'' @ file)"

text \<open>
  \<^verbatim>\<open>path.extname\<close> of the POSIX path module, as the module computes it: one scan of the
  path from its last character to its first, with the module's five variables. An index
  of the module that is still \<^verbatim>\<open>-1\<close> is \<open>None\<close> here.
\<close>

record ext_scan =
  startDot :: "nat option"
  startPart :: nat
  endPos :: "nat option"
  matchedSlash :: bool
  preDotState :: int

definition ext_init :: ext_scan where
  "ext_init = \<lparr>startDot = None, startPart = 0, endPos = None, matchedSlash = True,
     preDotState = 0\<rparr>"

text \<open>
  The body of the scan for the character \<open>code\<close> at index \<open>i\<close>. The result is \<open>Inl\<close> when
  the loop leaves with \<^verbatim>\<open>break\<close>, and \<open>Inr\<close> when it goes on to the index below.
\<close>

definition ext_step :: "nat \<Rightarrow> code_unit \<Rightarrow> ext_scan \<Rightarrow> ext_scan + ext_scan" where
  "ext_step i code s =
     (if code = 0x2F then
        (if \<not> matchedSlash s then Inl (s\<lparr>startPart := i + 1\<rparr>) else Inr s)
      else
        (let s1 = (if endPos s = None then s\<lparr>matchedSlash := False, endPos := Some (i + 1)\<rparr>
                   else s)
         in if code = 0x2E then
              (if startDot s1 = None then Inr (s1\<lparr>startDot := Some i\<rparr>)
               else if preDotState s1 \<noteq> 1 then Inr (s1\<lparr>preDotState := 1\<rparr>)
               else Inr s1)
            else if startDot s1 \<noteq> None then Inr (s1\<lparr>preDotState := - 1\<rparr>)
            else Inr s1))"

text \<open>The loop over the indices \<open>n - 1\<close> down to \<open>0\<close> of the path.\<close>

fun ext_loop :: "jsstring \<Rightarrow> nat \<Rightarrow> ext_scan \<Rightarrow> ext_scan" where
  "ext_loop p 0 s = s"
| "ext_loop p (Suc i) s =
     (case ext_step i (p ! i) s of Inl s' \<Rightarrow> s' | Inr s' \<Rightarrow> ext_loop p i s')"

definition extname :: "jsstring \<Rightarrow> jsstring" where
  "extname p =
     (let s = ext_loop p (length p) ext_init in
      case (startDot s, endPos s) of
        (Some sd, Some e) \<Rightarrow>
          if preDotState s = 0 \<or>
             (preDotState s = 1 \<and> sd + 1 = e \<and> sd = startPart s + 1)
          then [] else take (e - sd) (drop sd p)
      | _ \<Rightarrow> [])"


section \<open>The file system\<close>

text \<open>The value a failing call of the \<^verbatim>\<open>fs\<close> module throws; \<open>message\<close> is its \<^verbatim>\<open>err.message\<close>.\<close>

datatype error = Error (message: jsstring)

text \<open>
  What the program can see of a path. A regular file carries what
  \<^verbatim>\<open>readFileSync(path, 'utf8')\<close> gives for it at the time the report is assembled: the
  decoded text, or the error thrown (a file removed since it was listed, a file without
  read permission). A directory carries its entries in the order \<^verbatim>\<open>readdirSync\<close>
  enumerates them, each name with the node \<^verbatim>\<open>statSync\<close> finds under that name (links are
  followed). \<open>Unlistable\<close> is a directory \<^verbatim>\<open>readdirSync\<close> fails on, \<open>Special\<close> an entry that
  is neither a regular file nor a directory (a FIFO, a socket, a device), and \<open>Unstatable\<close>
  an entry \<^verbatim>\<open>statSync\<close> fails on (a dangling link).

  A file system is a finite tree, the same for the whole run: the renderer and the
  collector see the same directories. A cycle of links, on which the program does not
  return, is outside the model.
\<close>

datatype fsnode =
    File "error + jsstring"
  | Dir "(jsstring \<times> fsnode) list"
  | Unlistable error
  | Special "error + jsstring"
  | Unstatable error

record stat =
  isDirectory :: bool
  isFile :: bool

definition ENOTDIR :: error where
  "ENOTDIR = Error (js ''ENOTDIR: not a directory, scandir'')"

definition ENOENT :: error where
  "ENOENT = Error (js ''ENOENT: no such file or directory, open'')"

definition EISDIR :: error where
  "EISDIR = Error (js ''EISDIR: illegal operation on a directory, read'')"

fun readdirSync :: "fsnode \<Rightarrow> error + (jsstring \<times> fsnode) list" where
  "readdirSync (Dir entries) = Inr entries"
| "readdirSync (Unlistable e) = Inl e"
| "readdirSync (Unstatable e) = Inl e"
| "readdirSync (File r) = Inl ENOTDIR"
| "readdirSync (Special r) = Inl ENOTDIR"

fun statSync :: "fsnode \<Rightarrow> error + stat" where
  "statSync (File r) = Inr \<lparr>isDirectory = False, isFile = True\<rparr>"
| "statSync (Dir entries) = Inr \<lparr>isDirectory = True, isFile = False\<rparr>"
| "statSync (Unlistable e) = Inr \<lparr>isDirectory = True, isFile = False\<rparr>"
| "statSync (Special r) = Inr \<lparr>isDirectory = False, isFile = False\<rparr>"
| "statSync (Unstatable e) = Inl e"

text \<open>
  The program reads a file by its path, relative to the scan root. The path is cut at
  every \<^verbatim>\<open>/\<close> and followed from the root, one name at a time.
\<close>

fun split_on :: "code_unit \<Rightarrow> jsstring \<Rightarrow> jsstring list" where
  "split_on c [] = [[]]"
| "split_on c (x # xs) =
     (if x = c then [] # split_on c xs
      else (case split_on c xs of [] \<Rightarrow> [[x]] | s # ss \<Rightarrow> (x # s) # ss))"

fun lookup_path :: "fsnode \<Rightarrow> jsstring list \<Rightarrow> fsnode option" where
  "lookup_path node [] = Some node"
| "lookup_path node (s # ss) =
     (case node of
        Dir entries \<Rightarrow>
          (case map_of entries s of None \<Rightarrow> None | Some child \<Rightarrow> lookup_path child ss)
      | _ \<Rightarrow> None)"

definition readFileSync :: "fsnode \<Rightarrow> jsstring \<Rightarrow> error + jsstring" where
  "readFileSync root filePath =
     (case lookup_path root (if filePath = js ''.'' then [] else split_on 0x2F filePath) of
        None \<Rightarrow> Inl ENOENT
      | Some (File r) \<Rightarrow> r
      | Some (Special r) \<Rightarrow> r
      | Some (Dir entries) \<Rightarrow> Inl EISDIR
      | Some (Unlistable e) \<Rightarrow> Inl EISDIR
      | Some (Unstatable e) \<Rightarrow> Inl e)"

section \<open>Configuration\<close>

record config =
  excludeDirs :: "jsstring list"
  excludeFiles :: "jsstring list"
  textExtensions :: "jsstring list"
  outputFile :: jsstring

definition DEFAULT_CONFIG :: config where
  "DEFAULT_CONFIG = \<lparr>
     excludeDirs = [js ''node_modules'', js ''.git'', js ''.vscode'', js ''.idea'', js ''.venv'', js ''__pycache__''],
     excludeFiles = [js ''package-lock.json'', js ''yarn.lock'', js ''.env''],
     textExtensions = [js ''.js'', js ''.html'', js ''.css'', js ''.json'', js ''.md'', js ''.txt'', js ''.sql'', js ''.ts'',
       js ''.jsx'', js ''.tsx'', js ''.yaml'', js ''.yml'', js ''.py'', js ''.env'', js ''.gitignore'', js ''.toml''],
     outputFile = js ''project-structure.txt''\<rparr>"

text \<open>
  The \<^verbatim>\<open>options\<close> object of a caller: each key of the configuration is present or absent.
  \<open>merge_config\<close> is the object spread \<^verbatim>\<open>{ ...DEFAULT_CONFIG, ...options }\<close>.
\<close>

record options =
  optExcludeDirs :: "jsstring list option"
  optExcludeFiles :: "jsstring list option"
  optTextExtensions :: "jsstring list option"
  optOutputFile :: "jsstring option"

definition no_options :: options where
  "no_options = \<lparr>optExcludeDirs = None, optExcludeFiles = None, optTextExtensions = None,
     optOutputFile = None\<rparr>"

definition merge_config :: "config \<Rightarrow> options \<Rightarrow> config" where
  "merge_config c opts = \<lparr>
     excludeDirs = (case optExcludeDirs opts of None \<Rightarrow> excludeDirs c | Some v \<Rightarrow> v),
     excludeFiles = (case optExcludeFiles opts of None \<Rightarrow> excludeFiles c | Some v \<Rightarrow> v),
     textExtensions = (case optTextExtensions opts of None \<Rightarrow> textExtensions c | Some v \<Rightarrow> v),
     outputFile = (case optOutputFile opts of None \<Rightarrow> outputFile c | Some v \<Rightarrow> v)\<rparr>"

text \<open>A configuration passed as options: every key present.\<close>

definition as_options :: "config \<Rightarrow> options" where
  "as_options c = \<lparr>optExcludeDirs = Some (excludeDirs c), optExcludeFiles = Some (excludeFiles c),
     optTextExtensions = Some (textExtensions c), optOutputFile = Some (outputFile c)\<rparr>"

text \<open>\<^verbatim>\<open>path.basename(__filename)\<close>: the module is the file \<^verbatim>\<open>project-structure.js\<close>.\<close>

definition own_basename :: jsstring where
  "own_basename = js ''project-structure.js''"

section \<open>Arrays\<close>

text \<open>
  \<^verbatim>\<open>Array.prototype.filter\<close> with a callback that may throw: the first exception, in the
  order of the array, ends the call.
\<close>

fun filter_throw :: "('a \<Rightarrow> error + bool) \<Rightarrow> 'a list \<Rightarrow> error + 'a list" where
  "filter_throw p [] = Inr []"
| "filter_throw p (x # xs) =
     (case p x of
        Inl e \<Rightarrow> Inl e
      | Inr b \<Rightarrow>
          (case filter_throw p xs of
             Inl e \<Rightarrow> Inl e
           | Inr ys \<Rightarrow> Inr (if b then x # ys else ys)))"

section \<open>File Collector\<close>

text \<open>
  \<^verbatim>\<open>getAllFiles(dir, fileList, config)\<close>. The directory is given twice: as the node the
  file system has at \<open>dir\<close>, for the calls of the \<^verbatim>\<open>fs\<close> module, and as the path \<open>dir\<close>, for
  the paths pushed. The array \<open>fileList\<close> the source mutates is passed on and returned;
  an exception is \<open>Inl\<close>. \<open>getAllFiles_forEach\<close> is the \<^verbatim>\<open>files.forEach\<close> of the source.
\<close>

function getAllFiles :: "fsnode \<Rightarrow> jsstring \<Rightarrow> jsstring list \<Rightarrow> config \<Rightarrow> error + jsstring list"
  and getAllFiles_forEach ::
    "(jsstring \<times> fsnode) list \<Rightarrow> jsstring \<Rightarrow> jsstring list \<Rightarrow> config \<Rightarrow> error + jsstring list"
where
  "getAllFiles node dir fileList config =
     (case readdirSync node of
        Inl e \<Rightarrow> Inl e
      | Inr files \<Rightarrow> getAllFiles_forEach files dir fileList config)"
| "getAllFiles_forEach [] dir fileList config = Inr fileList"
| "getAllFiles_forEach ((file, child) # rest) dir fileList config =
     (let filePath = path_join dir file in
      case statSync child of
        Inl e \<Rightarrow> Inl e
      | Inr st \<Rightarrow>
          if isDirectory st then
            (if file \<notin> set (excludeDirs config) then
               (case getAllFiles child filePath fileList config of
                  Inl e \<Rightarrow> Inl e
                | Inr fileList' \<Rightarrow> getAllFiles_forEach rest dir fileList' config)
             else getAllFiles_forEach rest dir fileList config)
          else getAllFiles_forEach rest dir (fileList @ [filePath]) config)"
  by pat_completeness auto

termination
  by (relation "measure (\<lambda>x. case x of
        Inl (node, _) \<Rightarrow> 2 * size node + 1
      | Inr (entries, _) \<Rightarrow> 2 * size (Dir entries))")
    (auto elim: readdirSync.elims)

text \<open>\<^verbatim>\<open>getFileType(filePath, config)\<close>.\<close>

datatype file_type = Text | Binary

definition getFileType :: "(jsstring \<Rightarrow> jsstring) \<Rightarrow> jsstring \<Rightarrow> config \<Rightarrow> file_type" where
  "getFileType unicode_lower filePath config =
     (let ext = toLowerCase unicode_lower (extname filePath) in
      if ext \<in> set (textExtensions config) then Text else Binary)"


section \<open>Tree Renderer\<close>

text \<open>
  The two branch glyphs and the two indents of the tree: U+251C U+2500 U+2500 and a
  space; U+2514 U+2500 U+2500 and a space; four spaces; U+2502 and three spaces.
\<close>

definition branch_tee :: jsstring where
  "branch_tee = [0x251C, 0x2500, 0x2500, 0x20]"

definition branch_last :: jsstring where
  "branch_last = [0x2514, 0x2500, 0x2500, 0x20]"

definition indent_blank :: jsstring where
  "indent_blank = [0x20, 0x20, 0x20, 0x20]"

definition indent_bar :: jsstring where
  "indent_bar = [0x2502, 0x20, 0x20, 0x20]"

text \<open>The callbacks of the two \<^verbatim>\<open>files.filter\<close> calls; an entry is a name with its node.\<close>

definition is_listed_dir :: "config \<Rightarrow> jsstring \<times> fsnode \<Rightarrow> error + bool" where
  "is_listed_dir config = (\<lambda>(f, child).
     case statSync child of
       Inl e \<Rightarrow> Inl e
     | Inr st \<Rightarrow> Inr (isDirectory st \<and> f \<notin> set (excludeDirs config)))"

definition is_listed_file :: "config \<Rightarrow> jsstring \<times> fsnode \<Rightarrow> error + bool" where
  "is_listed_file config = (\<lambda>(f, child).
     case statSync child of
       Inl e \<Rightarrow> Inl e
     | Inr st \<Rightarrow> Inr (isFile st \<and> f \<notin> set (excludeFiles config) \<and> f \<noteq> own_basename))"

text \<open>
  \<^verbatim>\<open>fileNames.forEach((file, index) => ...)\<close>: \<open>n\<close> is \<^verbatim>\<open>fileNames.length\<close>, \<open>m\<close> is
  \<^verbatim>\<open>dirs.length\<close>, and \<open>lines\<close> the array pushed to.
\<close>

fun fileNames_forEach ::
  "jsstring \<Rightarrow> nat \<Rightarrow> nat \<Rightarrow> nat \<Rightarrow> jsstring list \<Rightarrow> jsstring list \<Rightarrow> jsstring list" where
  "fileNames_forEach prefix n m index [] lines = lines"
| "fileNames_forEach prefix n m index (file # rest) lines =
     (let isLast = (int index = int n - 1 \<and> m = 0) in
      fileNames_forEach prefix n m (index + 1) rest
        (lines @ [prefix @ (if isLast then branch_last else branch_tee) @ file]))"

text \<open>
  \<^verbatim>\<open>generateTree(dir, prefix, config)\<close>, the directory given as its node.
  \<open>dirs_forEach\<close> is the \<^verbatim>\<open>dirs.forEach((dirName, index) => ...)\<close> of the source, \<open>m\<close> being
  \<^verbatim>\<open>dirs.length\<close>; each directory name is kept with its node, so \<open>dirs\<close> is sorted by name.
\<close>

function generateTree :: "fsnode \<Rightarrow> jsstring \<Rightarrow> config \<Rightarrow> error + jsstring list"
  and dirs_forEach ::
    "jsstring \<Rightarrow> config \<Rightarrow> nat \<Rightarrow> nat \<Rightarrow> (jsstring \<times> fsnode) list \<Rightarrow> jsstring list
      \<Rightarrow> error + jsstring list"
where
  "generateTree node prefix config =
     (case readdirSync node of
        Inl e \<Rightarrow> Inl e
      | Inr files \<Rightarrow>
          (case filter_throw (is_listed_dir config) files of
             Inl e \<Rightarrow> Inl e
           | Inr ds \<Rightarrow>
               (case filter_throw (is_listed_file config) files of
                  Inl e \<Rightarrow> Inl e
                | Inr fs \<Rightarrow>
                    (let dirs = sort_key fst ds;
                         fileNames = sort (map fst fs);
                         lines = fileNames_forEach prefix (length fileNames) (length dirs) 0
                                   fileNames []
                     in dirs_forEach prefix config (length dirs) 0 dirs lines))))"
| "dirs_forEach prefix config m index [] lines = Inr lines"
| "dirs_forEach prefix config m index ((dirName, child) # rest) lines =
     (let isLast = (int index = int m - 1);
          lines1 = lines @ [prefix @ (if isLast then branch_last else branch_tee) @ dirName @ js ''/'']
      in case generateTree child (prefix @ (if isLast then indent_blank else indent_bar)) config of
           Inl e \<Rightarrow> Inl e
         | Inr sub \<Rightarrow> dirs_forEach prefix config m (index + 1) rest (lines1 @ sub))"
  by pat_completeness auto

lemma filter_throw_size: "filter_throw p xs = Inr ys \<Longrightarrow> size_list f ys \<le> size_list f xs"
  by (induction xs arbitrary: ys) (auto split: sum.splits if_splits)

lemma size_list_insort_key: "size_list f (insort_key k x xs) = Suc (f x + size_list f xs)"
  by (induction xs) auto

lemma size_list_sort_key: "size_list f (sort_key k xs) = size_list f xs"
  by (induction xs) (auto simp: size_list_insort_key)

termination generateTree
  by (relation "measure (\<lambda>x. case x of
        Inl (node, _) \<Rightarrow> 2 * size node + 1
      | Inr (_, _, _, _, entries, _) \<Rightarrow> 2 * size (Dir entries))")
    (auto elim!: readdirSync.elims simp: size_list_sort_key
       dest!: filter_throw_size [where f = "size_prod (\<lambda>x. 0) size"])

section \<open>Report Assembler\<close>

definition separator :: jsstring where
  "separator = js ''----------------------------------------''"

definition binary_placeholder :: jsstring where
  "binary_placeholder = js ''[BINARY FILE - CONTENT NOT DISPLAYED]''"

text \<open>
  The body of \<^verbatim>\<open>files.forEach(filePath => ...)\<close> in \<^verbatim>\<open>generateStructure\<close>: the two pushes,
  the \<^verbatim>\<open>try\<close> block, whose value is \<open>Inl\<close> when it throws, the \<^verbatim>\<open>catch\<close> block, and the
  two pushes of the empty string. \<open>output\<close> is the array pushed to.
\<close>

definition push_file :: "(jsstring \<Rightarrow> jsstring) \<Rightarrow> config \<Rightarrow> fsnode \<Rightarrow> jsstring \<Rightarrow> jsstring list \<Rightarrow> jsstring list" where
  "push_file unicode_lower config root filePath output =
     (let output1 = output @ [js ''FILE: '' @ filePath];
          output2 = output1 @ [separator];
          tried =
            (if getFileType unicode_lower filePath config = Text then
               (case readFileSync root filePath of
                  Inl err \<Rightarrow> Inl err
                | Inr content \<Rightarrow> Inr (output2 @ [content]))
             else Inr (output2 @ [binary_placeholder]));
          output3 =
            (case tried of
               Inl err \<Rightarrow> output2 @ [js ''[ERROR READING FILE: '' @ message err @ js '']'']
             | Inr out \<Rightarrow> out)
      in output3 @ [[]] @ [[]])"

fun files_forEach :: "(jsstring \<Rightarrow> jsstring) \<Rightarrow> config \<Rightarrow> fsnode \<Rightarrow> jsstring list \<Rightarrow> jsstring list \<Rightarrow> jsstring list" where
  "files_forEach unicode_lower config root [] output = output"
| "files_forEach unicode_lower config root (filePath # rest) output =
     files_forEach unicode_lower config root rest (push_file unicode_lower config root filePath output)"

text \<open>The three \<^verbatim>\<open>filter\<close> calls and the \<^verbatim>\<open>sort\<close> applied to the result of \<^verbatim>\<open>getAllFiles\<close>.\<close>

definition select_files :: "config \<Rightarrow> jsstring list \<Rightarrow> jsstring list" where
  "select_files config all =
     sort
       (filter (\<lambda>file. file \<noteq> own_basename)
          (filter (\<lambda>file. \<not> list_ex (\<lambda>exFile. str_includes file exFile) (excludeFiles config))
             (filter (\<lambda>file. \<not> list_ex (\<lambda>dir. str_includes file dir) (excludeDirs config))
                all)))"

text \<open>
  The array \<open>output\<close> of \<^verbatim>\<open>generateStructure\<close> before it is joined. \<open>root\<close> is the node of
  the directory the program runs in (\<^verbatim>\<open>projectRoot = '.'\<close>).
\<close>

definition output_lines :: "(jsstring \<Rightarrow> jsstring) \<Rightarrow> config \<Rightarrow> fsnode \<Rightarrow> error + jsstring list" where
  "output_lines unicode_lower config root =
     (let output = [js ''===================================='',
                    js ''PROJECT STRUCTURE AND CONTENTS'',
                    js ''===================================='',
                    [],
                    js ''PROJECT STRUCTURE:'',
                    js ''==================''] in
      case generateTree root [] config of
        Inl e \<Rightarrow> Inl e
      | Inr tree \<Rightarrow>
          (let output = output @ tree @ [[]] @ [js ''FILE CONTENTS:'', js ''=============='', []] in
           case getAllFiles root (js ''.'') [] config of
             Inl e \<Rightarrow> Inl e
           | Inr all \<Rightarrow> Inr (files_forEach unicode_lower config root (select_files config all) output)))"

text \<open>\<^verbatim>\<open>generateStructure(options)\<close>.\<close>

definition generateStructure :: "(jsstring \<Rightarrow> jsstring) \<Rightarrow> options \<Rightarrow> fsnode \<Rightarrow> error + jsstring" where
  "generateStructure unicode_lower opts root =
     (let config = merge_config DEFAULT_CONFIG opts in
      case output_lines unicode_lower config root of
        Inl e \<Rightarrow> Inl e
      | Inr output \<Rightarrow> Inr (join newline output))"

text \<open>
  \<^verbatim>\<open>executeGenerator(options)\<close>. Its effects are the result: the exception that ends the
  run, or the file written (path and data) with the two lines logged. \<open>write_error\<close> is
  what \<^verbatim>\<open>writeFileSync\<close> throws, if it throws.
\<close>

datatype run = Threw error | Wrote jsstring jsstring "jsstring list"

definition executeGenerator :: "(jsstring \<Rightarrow> jsstring) \<Rightarrow> options \<Rightarrow> fsnode \<Rightarrow> error option \<Rightarrow> run" where
  "executeGenerator unicode_lower opts root write_error =
     (let config = merge_config DEFAULT_CONFIG opts in
      case generateStructure unicode_lower (as_options config) root of
        Inl e \<Rightarrow> Threw e
      | Inr structure \<Rightarrow>
          (case write_error of
             Some e \<Rightarrow> Threw e
           | None \<Rightarrow>
               Wrote (outputFile config) structure
                 [js ''Project structure generated successfully!'',
                  js ''Output saved to: '' @ outputFile config]))"

section \<open>Scenario A of the specification\<close>

text \<open>
  The scan root holds the file \<^verbatim>\<open>a.txt\<close> with the content \<^verbatim>\<open>hi\<close> and the empty directory
  \<^verbatim>\<open>sub\<close>; \<open>scenario_A_rev\<close> is the same root enumerated in the other order.
\<close>

definition scenario_A :: fsnode where
  "scenario_A = Dir [(js ''a.txt'', File (Inr (js ''hi''))), (js ''sub'', Dir [])]"

definition scenario_A_rev :: fsnode where
  "scenario_A_rev = Dir [(js ''sub'', Dir []), (js ''a.txt'', File (Inr (js ''hi'')))]"

definition scenario_A_report :: "jsstring list" where
  "scenario_A_report =
     [js ''===================================='',
      js ''PROJECT STRUCTURE AND CONTENTS'',
      js ''===================================='',
      [],
      js ''PROJECT STRUCTURE:'',
      js ''=================='',
      branch_tee @ js ''a.txt'',
      branch_last @ js ''sub/'',
      [],
      js ''FILE CONTENTS:'',
      js ''=============='',
      [],
      js ''FILE: a.txt'',
      js ''----------------------------------------'',
      js ''hi'',
      [],
      []]"

section \<open>Notions of the statements\<close>

text \<open>
  What \<^verbatim>\<open>statSync\<close> tells the program about a node: a directory, a regular file, or a
  failure to answer.
\<close>

fun is_directory :: "fsnode \<Rightarrow> bool" where
  "is_directory (Dir entries) = True"
| "is_directory (Unlistable e) = True"
| "is_directory node = False"

fun is_regular :: "fsnode \<Rightarrow> bool" where
  "is_regular (File r) = True"
| "is_regular node = False"

fun stat_fails :: "fsnode \<Rightarrow> bool" where
  "stat_fails (Unstatable e) = True"
| "stat_fails node = False"

text \<open>
  The files and the directories of a listing that the renderer shows, without the calls
  that may throw: regular files not named in \<open>excludeFiles\<close> and not named as the module,
  sorted; directories not named in \<open>excludeDirs\<close>, sorted by name.
\<close>

definition eligible_files :: "config \<Rightarrow> (jsstring \<times> fsnode) list \<Rightarrow> jsstring list" where
  "eligible_files config entries =
     sort (map fst (filter (\<lambda>(f, child). is_regular child \<and> f \<notin> set (excludeFiles config) \<and>
       f \<noteq> own_basename) entries))"

definition eligible_dirs :: "config \<Rightarrow> (jsstring \<times> fsnode) list \<Rightarrow> (jsstring \<times> fsnode) list" where
  "eligible_dirs config entries =
     sort_key fst (filter (\<lambda>(f, child). is_directory child \<and> f \<notin> set (excludeDirs config)) entries)"

text \<open>
  The layout of one directory in the words of the specification. The children are the
  files followed by the directories; the child at position \<open>k\<close> of all \<open>n\<close> children has
  the last-child glyph when \<open>k + 1 = n\<close> and the tee glyph otherwise; a directory's line
  ends in \<^verbatim>\<open>/\<close> and is followed at once by its subtree, whose prefix is extended by four
  spaces when the directory is the last one and by the bar indent otherwise.
\<close>

definition spec_file_lines :: "jsstring \<Rightarrow> jsstring list \<Rightarrow> nat \<Rightarrow> jsstring list" where
  "spec_file_lines prefix files ndirs =
     map (\<lambda>(k, f). prefix @ (if Suc k = length files + ndirs then branch_last else branch_tee) @ f)
       (enumerate 0 files)"

definition spec_dir_lines ::
  "jsstring \<Rightarrow> nat \<Rightarrow> (jsstring \<times> fsnode) list \<Rightarrow> (fsnode \<Rightarrow> jsstring \<Rightarrow> jsstring list) \<Rightarrow> jsstring list" where
  "spec_dir_lines prefix nfiles dirs subtree =
     concat (map (\<lambda>(j, (d, child)).
        (prefix @ (if Suc (nfiles + j) = nfiles + length dirs then branch_last else branch_tee) @ d @ js ''/'')
        # subtree child (prefix @ (if Suc j = length dirs then indent_blank else indent_bar)))
       (enumerate 0 dirs))"

text \<open>
  The fixed lines of the report, and the block of one file in the words of the
  specification: the header with the path, the separator, the content (or the placeholder
  of a binary file, or the line of a failed read), two empty lines.
\<close>

definition report_head :: "jsstring list" where
  "report_head = [js ''===================================='',
                    js ''PROJECT STRUCTURE AND CONTENTS'',
                    js ''===================================='',
                    [],
                    js ''PROJECT STRUCTURE:'',
                    js ''=================='']"

definition report_mid :: "jsstring list" where
  "report_mid = [[], js ''FILE CONTENTS:'', js ''=============='', []]"

definition spec_block :: "(jsstring \<Rightarrow> jsstring) \<Rightarrow> config \<Rightarrow> fsnode \<Rightarrow> jsstring \<Rightarrow> jsstring list" where
  "spec_block unicode_lower config root p =
     [js ''FILE: '' @ p,
      separator,
      (if toLowerCase unicode_lower (extname p) \<in> set (textExtensions config) then
         (case readFileSync root p of
            Inl err \<Rightarrow> js ''[ERROR READING FILE: '' @ message err @ js '']''
          | Inr content \<Rightarrow> content)
       else binary_placeholder),
      [],
      []]"



text \<open>
  A root with files and directories at two levels, and its rendered tree.
\<close>

definition example_root :: fsnode where
  "example_root = Dir
     [(js ''src'', Dir [(js ''m.js'', File (Inr (js ''x'')))]),
      (js ''b.md'', File (Inr (js ''b''))),
      (js ''docs'', Dir [(js ''r.md'', File (Inr (js ''r'')))]),
      (js ''a.txt'', File (Inr (js ''hi'')))]"

definition example_tree :: "jsstring list" where
  "example_tree =
     [branch_tee @ js ''a.txt'',
      branch_tee @ js ''b.md'',
      branch_tee @ js ''docs/'',
      indent_bar @ branch_last @ js ''r.md'',
      branch_last @ js ''src/'',
      indent_blank @ branch_last @ js ''m.js'']"

text \<open>
  Scenario C, with a file without extension added, and scenario E: a file that was listed
  and cannot be read.
\<close>

definition scenario_C :: fsnode where
  "scenario_C = Dir [(js ''logo.png'', File (Inr (js ''PNG''))), (js ''Makefile'', File (Inr (js ''all:'')))]"

definition scenario_E :: fsnode where
  "scenario_E = Dir [(js ''a.txt'', File (Inr (js ''hi''))), (js ''gone.md'', File (Inl (Error (js ''ENOENT'')))),
     (js ''z.txt'', File (Inr (js ''end'')))]"

text \<open>
  A directory that the traversal reaches cannot be listed: the node itself is not a
  directory that can be listed, or this holds for a directory among its entries that is
  not excluded. The renderer and the collector descend into the same directories.
\<close>

fun listing_fails :: "config \<Rightarrow> fsnode \<Rightarrow> bool" where
  "listing_fails config (Dir entries) =
     (\<exists>(f, child) \<in> set entries.
        is_directory child \<and> f \<notin> set (excludeDirs config) \<and> listing_fails config child)"
| "listing_fails config node = True"

text \<open>
  The file system without its excluded directories: every entry that is a directory
  named in \<open>excludeDirs\<close> is removed, with everything below it, at every depth.
\<close>

definition excluded_dir :: "config \<Rightarrow> jsstring \<times> fsnode \<Rightarrow> bool" where
  "excluded_dir config = (\<lambda>(f, child). is_directory child \<and> f \<in> set (excludeDirs config))"

fun prune :: "config \<Rightarrow> fsnode \<Rightarrow> fsnode" where
  "prune config (Dir entries) =
     Dir (map (\<lambda>(f, child). (f, prune config child))
            (filter (\<lambda>entry. \<not> excluded_dir config entry) entries))"
| "prune config node = node"

text \<open>
  An excluded directory is left somewhere in a file system: an entry that is a directory
  named in \<open>excludeDirs\<close>, at any depth.
\<close>

fun has_excluded_dir :: "config \<Rightarrow> fsnode \<Rightarrow> bool" where
  "has_excluded_dir config (Dir entries) =
     (\<exists>(f, child) \<in> set entries. excluded_dir config (f, child) \<or> has_excluded_dir config child)"
| "has_excluded_dir config node = False"

text \<open>
  Scenario B, and a root with a directory that cannot be listed two levels down.
\<close>

definition scenario_B :: fsnode where
  "scenario_B = Dir [(js ''node_modules'', Dir [(js ''x.js'', File (Inr (js ''x'')))]), (js ''a.txt'', File (Inr (js ''hi'')))]"

definition locked_root :: fsnode where
  "locked_root = Dir [(js ''a.txt'', File (Inr (js ''hi''))), (js ''sub'', Dir [(js ''private'', Unlistable (Error (js ''EACCES'')))])]"

text \<open>
  The module's own file among the entries of a directory: a regular file named as the
  module. \<open>drop_own\<close> is the file system without these files, at every depth, and
  \<open>has_own_file\<close> holds when one is left somewhere.
\<close>

definition own_file :: "jsstring \<times> fsnode \<Rightarrow> bool" where
  "own_file = (\<lambda>(f, child). is_regular child \<and> f = own_basename)"

fun drop_own :: "fsnode \<Rightarrow> fsnode" where
  "drop_own (Dir entries) =
     Dir (map (\<lambda>(f, child). (f, drop_own child)) (filter (\<lambda>entry. \<not> own_file entry) entries))"
| "drop_own node = node"

fun has_own_file :: "fsnode \<Rightarrow> bool" where
  "has_own_file (Dir entries) =
     (\<exists>(f, child) \<in> set entries. own_file (f, child) \<or> has_own_file child)"
| "has_own_file node = False"

text \<open>
  \<open>reaches config node dir node' dir'\<close>: starting at \<open>node\<close> with the path \<open>dir\<close>, the
  collector comes to \<open>node'\<close> with the path \<open>dir'\<close>, going down through directories that
  are not excluded and joining their names to the path.
\<close>

inductive reaches :: "config \<Rightarrow> fsnode \<Rightarrow> jsstring \<Rightarrow> fsnode \<Rightarrow> jsstring \<Rightarrow> bool" where
  here: "reaches config node dir node dir"
| below: "(d, child) \<in> set entries \<Longrightarrow> is_directory child \<Longrightarrow> d \<notin> set (excludeDirs config) \<Longrightarrow>
     reaches config child (path_join dir d) node' dir' \<Longrightarrow>
     reaches config (Dir entries) dir node' dir'"

text \<open>
  Roots for the instances of C1, C9 and C10: the report of an earlier run in the scan
  root; the module's own file in the scan root; the module's own file in the directory
  \<^verbatim>\<open>.github\<close> and in a directory \<^verbatim>\<open>z\<close>; a \<^verbatim>\<open>.gitignore\<close> in the scan root.
\<close>

definition rerun_root :: fsnode where
  "rerun_root = Dir [(js ''project-structure.txt'', File (Inr (js ''old report'')))]"

definition own_root :: fsnode where
  "own_root = Dir [(js ''project-structure.js'', File (Inr (js ''code''))), (js ''a.txt'', File (Inr (js ''hi'')))]"

definition github_root :: fsnode where
  "github_root = Dir [(js ''.github'', Dir [(js ''project-structure.js'', File (Inr (js ''code'')))])]"

definition nested_own_root :: fsnode where
  "nested_own_root = Dir [(js ''z'', Dir [(js ''project-structure.js'', File (Inr (js ''code'')))])]"

definition gitignore_root :: fsnode where
  "gitignore_root = Dir [(js ''.gitignore'', File (Inr (js ''node_modules''))), (js ''a.txt'', File (Inr (js ''hi'')))]"




text \<open>
  The scan of \<open>extname\<close> in closed form. \<open>last_dot x\<close> is the index of the last \<^verbatim>\<open>.\<close> in \<open>x\<close>,
  and \<open>scan_state n x\<close> is the state of the scan when it has gone, from the end of the
  path, through the characters \<open>x\<close>, none of them \<^verbatim>\<open>/\<close>, the first of them at index \<open>n\<close>.
\<close>

fun last_dot :: "jsstring \<Rightarrow> nat option" where
  "last_dot [] = None"
| "last_dot (c # cs) =
     (case last_dot cs of
        Some k \<Rightarrow> Some (Suc k)
      | None \<Rightarrow> if c = 0x2E then Some 0 else None)"

definition scan_state :: "nat \<Rightarrow> jsstring \<Rightarrow> ext_scan" where
  "scan_state n x =
     \<lparr>startDot = map_option (\<lambda>k. n + k) (last_dot x), startPart = 0,
      endPos = Some (n + length x), matchedSlash = False,
      preDotState = (case last_dot x of
                       None \<Rightarrow> 0
                     | Some k \<Rightarrow> if k = 0 then 0 else if hd x = 0x2E then 1 else - 1)\<rparr>"

text \<open>
  A configuration given by a caller whose only text extension is the empty string, and a
  root with a file whose extension is written in upper case.
\<close>

definition empty_ext_config :: config where
  "empty_ext_config = DEFAULT_CONFIG\<lparr>textExtensions := [[]]\<rparr>"

definition readme_root :: fsnode where
  "readme_root = Dir
     [(js ''logo.png'', File (Inr (js ''PNG''))),
      (js ''docs'', Dir [(js ''README.MD'', File (Inr (js ''readme'')))]),
      (js ''Makefile'', File (Inr (js ''all:'')))]"

section \<open>Lemmas\<close>

declare generateTree.simps(1) [simp del]
declare getAllFiles.simps(1) [simp del]
declare js_def [simp]

subsection \<open>The report as blocks\<close>

lemma push_file_block: "push_file unicode_lower config root p out = out @ spec_block unicode_lower config root p"
  by (simp add: push_file_def spec_block_def getFileType_def Let_def split: sum.splits)

lemma files_forEach_blocks:
  "files_forEach unicode_lower config root files out = out @ concat (map (spec_block unicode_lower config root) files)"
  by (induction files arbitrary: out) (simp_all add: push_file_block)

lemma output_lines_blocks:
  "generateTree root [] config = Inr tree \<Longrightarrow> getAllFiles root (js ''.'') [] config = Inr all \<Longrightarrow>
   output_lines unicode_lower config root =
     Inr (report_head @ tree @ report_mid @
          concat (map (spec_block unicode_lower config root) (select_files config all)))"
  by (simp add: output_lines_def files_forEach_blocks report_head_def report_mid_def)

lemma output_lines_InrD:
  "output_lines unicode_lower config root = Inr out \<Longrightarrow>
   \<exists>tree all. generateTree root [] config = Inr tree \<and> getAllFiles root (js ''.'') [] config = Inr all"
  by (auto simp: output_lines_def Let_def split: sum.splits)

lemma output_lines_Inl_tree:
  "generateTree root [] config = Inl e \<Longrightarrow> output_lines unicode_lower config root = Inl e"
  by (simp add: output_lines_def)

lemma output_lines_Inl_files:
  "generateTree root [] config = Inr tree \<Longrightarrow> getAllFiles root (js ''.'') [] config = Inl e \<Longrightarrow>
   output_lines unicode_lower config root = Inl e"
  by (simp add: output_lines_def)

lemma merge_as_options: "merge_config c (as_options c') = c'"
  by (simp add: merge_config_def as_options_def)

subsection \<open>The filters and the loops of the renderer\<close>

lemma filter_throw_Inl_iff:
  "isl (filter_throw p xs) \<longleftrightarrow> (\<exists>x \<in> set xs. isl (p x))"
  by (induction xs) (auto split: sum.splits)

lemma filter_throw_InrD:
  "filter_throw p xs = Inr ys \<Longrightarrow> ys = filter (\<lambda>x. p x = Inr True) xs"
  by (induction xs arbitrary: ys) (auto split: sum.splits)

lemma filter_throw_Inr_iff:
  "filter_throw p xs = Inr ys \<longleftrightarrow>
     (\<forall>x \<in> set xs. \<not> isl (p x)) \<and> ys = filter (\<lambda>x. p x = Inr True) xs"
proof
  assume a: "filter_throw p xs = Inr ys"
  then have "\<not> isl (filter_throw p xs)" by simp
  then have "\<forall>x \<in> set xs. \<not> isl (p x)" unfolding filter_throw_Inl_iff by blast
  with filter_throw_InrD[OF a]
  show "(\<forall>x \<in> set xs. \<not> isl (p x)) \<and> ys = filter (\<lambda>x. p x = Inr True) xs"
    by blast
next
  assume a: "(\<forall>x \<in> set xs. \<not> isl (p x)) \<and> ys = filter (\<lambda>x. p x = Inr True) xs"
  then have "\<not> isl (filter_throw p xs)" by (simp add: filter_throw_Inl_iff)
  then obtain zs where "filter_throw p xs = Inr zs" by (cases "filter_throw p xs") auto
  with a show "filter_throw p xs = Inr ys" by (simp add: filter_throw_InrD)
qed

lemma is_listed_dir_simps:
  "is_listed_dir config (f, child) =
     (if stat_fails child then Inl (case child of Unstatable e \<Rightarrow> e)
      else Inr (is_directory child \<and> f \<notin> set (excludeDirs config)))"
  by (cases child) (simp_all add: is_listed_dir_def)

lemma is_listed_file_simps:
  "is_listed_file config (f, child) =
     (if stat_fails child then Inl (case child of Unstatable e \<Rightarrow> e)
      else Inr (is_regular child \<and> f \<notin> set (excludeFiles config) \<and> f \<noteq> own_basename))"
  by (cases child) (simp_all add: is_listed_file_def)

lemma listed_dirs_eq:
  "filter_throw (is_listed_dir config) entries = Inr ds \<Longrightarrow> sort_key fst ds = eligible_dirs config entries"
  unfolding filter_throw_Inr_iff eligible_dirs_def
  by (auto simp: is_listed_dir_simps intro!: arg_cong[where f="sort_key fst"] filter_cong split: if_splits)

lemma listed_files_eq:
  "filter_throw (is_listed_file config) entries = Inr fs \<Longrightarrow> sort (map fst fs) = eligible_files config entries"
  unfolding filter_throw_Inr_iff eligible_files_def
  by (auto simp: is_listed_file_simps intro!: arg_cong[where f="sort"] arg_cong[where f="map fst"] filter_cong split: if_splits)

lemma fileNames_forEach_eq:
  "fileNames_forEach prefix n m i fs lines =
     lines @ map (\<lambda>(k, f). prefix @ (if int k = int n - 1 \<and> m = 0 then branch_last else branch_tee) @ f)
       (enumerate i fs)"
  by (induction fs arbitrary: i lines) (simp_all add: Let_def)

lemma fileNames_forEach_spec:
  "fileNames_forEach prefix (length fs) m 0 fs [] = spec_file_lines prefix fs m"
  unfolding fileNames_forEach_eq spec_file_lines_def
  by (auto simp: in_set_enumerate_eq)

lemma dirs_forEach_Inr:
  "dirs_forEach prefix config m i ds lines = Inr out \<Longrightarrow>
     (\<forall>(k, (d, child)) \<in> set (enumerate i ds).
         \<not> isl (generateTree child (prefix @ (if int k = int m - 1 then indent_blank else indent_bar)) config)) \<and>
     out = lines @ concat (map (\<lambda>(k, (d, child)).
        (prefix @ (if int k = int m - 1 then branch_last else branch_tee) @ d @ js ''/'')
        # projr (generateTree child (prefix @ (if int k = int m - 1 then indent_blank else indent_bar)) config))
       (enumerate i ds))"
proof (induction ds arbitrary: i lines)
  case Nil
  then show ?case by simp
next
  case (Cons x ds)
  obtain d child where x: "x = (d, child)" by (cases x)
  from Cons.prems obtain sub where
    sub: "generateTree child (prefix @ (if int i = int m - 1 then indent_blank else indent_bar)) config = Inr sub"
    and rest: "dirs_forEach prefix config m (Suc i) ds
        ((lines @ [prefix @ (if int i = int m - 1 then branch_last else branch_tee) @ d @ js ''/'']) @ sub) = Inr out"
    by (auto simp: x Let_def split: sum.splits)
  from Cons.IH[OF rest] sub show ?case
    by (simp add: x)
qed


lemma generateTree_Dir_InrD:
  assumes "generateTree (Dir entries) prefix config = Inr lines"
  shows "dirs_forEach prefix config (length (eligible_dirs config entries)) 0
           (eligible_dirs config entries)
           (spec_file_lines prefix (eligible_files config entries)
              (length (eligible_dirs config entries))) = Inr lines"
proof -
  from assms obtain ds fs where
    ds: "filter_throw (is_listed_dir config) entries = Inr ds" and
    fs: "filter_throw (is_listed_file config) entries = Inr fs" and
    run: "dirs_forEach prefix config (length (sort_key fst ds)) 0 (sort_key fst ds)
            (fileNames_forEach prefix (length (sort (map fst fs))) (length (sort_key fst ds)) 0
               (sort (map fst fs)) []) = Inr lines"
    by (auto simp: generateTree.simps(1)[of "Dir entries"] Let_def split: sum.splits)
  from run show ?thesis
    unfolding listed_dirs_eq[OF ds] listed_files_eq[OF fs] fileNames_forEach_spec .
qed

subsection \<open>Joined lines\<close>


lemma join_Cons: "join s (x # xs) = (if xs = [] then x else x @ s @ join s xs)"
  by (cases xs) simp_all

lemma join_append:
  "join s (xs @ ys) =
     (if xs = [] then join s ys else if ys = [] then join s xs else join s xs @ s @ join s ys)"
  by (induction xs) (auto simp: join_Cons)

lemma join_contains:
  assumes "ys \<noteq> []"
  shows "\<exists>a b. join s (xs @ ys @ zs) = a @ join s ys @ b"
proof -
  have 1: "\<exists>b. join s (ys @ zs) = join s ys @ b"
    using assms by (auto simp: join_append)
  then obtain b where b: "join s (ys @ zs) = join s ys @ b" ..
  show ?thesis
  proof (cases "xs = []")
    case True
    with b show ?thesis by (metis append_Nil)
  next
    case False
    with assms have "join s (xs @ ys @ zs) = (join s xs @ s) @ join s ys @ b"
      by (simp add: join_append[of s xs] b)
    then show ?thesis by blast
  qed
qed

lemma getFileType_Text_iff:
  "getFileType unicode_lower filePath config = Text \<longleftrightarrow> toLowerCase unicode_lower (extname filePath) \<in> set (textExtensions config)"
  by (simp add: getFileType_def)

subsection \<open>Failures of listing\<close>

lemma eligible_dirs_set:
  "set (eligible_dirs config entries) =
     {(f, child). (f, child) \<in> set entries \<and> is_directory child \<and> f \<notin> set (excludeDirs config)}"
  by (auto simp: eligible_dirs_def)

lemma generateTree_not_Dir:
  "\<forall>entries. node \<noteq> Dir entries \<Longrightarrow> isl (generateTree node prefix config)"
  by (cases node) (simp_all add: generateTree.simps(1))

lemma getAllFiles_not_Dir:
  "\<forall>entries. node \<noteq> Dir entries \<Longrightarrow> isl (getAllFiles node dir fileList config)"
  by (cases node) (simp_all add: getAllFiles.simps(1))

lemma generateTree_child_fails:
  assumes "(f, child) \<in> set entries" "is_directory child" "f \<notin> set (excludeDirs config)"
    and "\<And>p. isl (generateTree child p config)"
  shows "isl (generateTree (Dir entries) prefix config)"
proof (rule ccontr)
  assume "\<not> isl (generateTree (Dir entries) prefix config)"
  then obtain lines where "generateTree (Dir entries) prefix config = Inr lines"
    by (cases "generateTree (Dir entries) prefix config") auto
  note run = dirs_forEach_Inr[OF generateTree_Dir_InrD[OF this]]
  from assms(1-3) have "(f, child) \<in> set (eligible_dirs config entries)"
    by (simp add: eligible_dirs_set)
  then obtain k where "k < length (eligible_dirs config entries)"
    "eligible_dirs config entries ! k = (f, child)"
    by (auto simp: in_set_conv_nth)
  then have "(k, (f, child)) \<in> set (enumerate 0 (eligible_dirs config entries))"
    by (simp add: in_set_enumerate_eq)
  with run assms(4) show False by blast
qed

lemma listing_fails_generateTree:
  "listing_fails config node \<Longrightarrow> isl (generateTree node prefix config)"
proof (induction node arbitrary: prefix)
  case (Dir entries)
  from Dir.prems obtain f child where
    c: "(f, child) \<in> set entries" "is_directory child" "f \<notin> set (excludeDirs config)"
       "listing_fails config child"
    by auto
  from c(1) have "child \<in> Basic_BNFs.snds (f, child)" by simp
  from Dir.IH[OF c(1) this c(4)] have "\<And>p. isl (generateTree child p config)" .
  from generateTree_child_fails[OF c(1-3) this] show ?case .
qed (simp_all add: generateTree_not_Dir)

lemma getAllFiles_forEach_child_fails:
  assumes "(f, child) \<in> set entries" "is_directory child" "f \<notin> set (excludeDirs config)"
    and "\<And>d fl. isl (getAllFiles child d fl config)"
  shows "isl (getAllFiles_forEach entries dir fileList config)"
  using assms(1)
proof (induction entries arbitrary: fileList)
  case Nil
  then show ?case by simp
next
  case (Cons x entries)
  obtain g c where x: "x = (g, c)" by (cases x)
  show ?case
  proof (cases "x = (f, child)")
    case True
    with x have gc: "g = f" "c = child" by simp_all
    from assms(2) obtain st where st: "statSync child = Inr st" "isDirectory st"
      by (cases child) auto
    from assms(4)[of "path_join dir f" fileList] obtain e where
      "getAllFiles child (path_join dir f) fileList config = Inl e"
      by (cases "getAllFiles child (path_join dir f) fileList config") auto
    with st assms(3) show ?thesis by (simp add: x gc Let_def)
  next
    case False
    with Cons.prems have "(f, child) \<in> set entries" by simp
    from Cons.IH[OF this] show ?thesis
      by (auto simp: x Let_def split: sum.splits)
  qed
qed

lemma listing_fails_getAllFiles:
  "listing_fails config node \<Longrightarrow> isl (getAllFiles node dir fileList config)"
proof (induction node arbitrary: dir fileList)
  case (Dir entries)
  from Dir.prems obtain f child where
    c: "(f, child) \<in> set entries" "is_directory child" "f \<notin> set (excludeDirs config)"
       "listing_fails config child"
    by auto
  from c(1) have "child \<in> Basic_BNFs.snds (f, child)" by simp
  from Dir.IH[OF c(1) this c(4)] have "\<And>d fl. isl (getAllFiles child d fl config)" .
  from getAllFiles_forEach_child_fails[OF c(1-3) this] show ?case
    by (simp add: getAllFiles.simps(1))
qed (simp_all add: getAllFiles_not_Dir)
lemma generateStructure_Inl:
  "output_lines unicode_lower (merge_config DEFAULT_CONFIG opts) root = Inl e \<Longrightarrow>
   generateStructure unicode_lower opts root = Inl e \<and> executeGenerator unicode_lower opts root write_error = Threw e"
  by (simp add: generateStructure_def executeGenerator_def merge_as_options)

subsection \<open>A file system without its excluded directories\<close>

lemma pair_map_apsnd: "(\<lambda>(f, child). (f, h child)) = apsnd h"
  by (auto simp: fun_eq_iff)

lemma filter_throw_filter:
  "(\<And>x. x \<in> set xs \<Longrightarrow> \<not> keep x \<Longrightarrow> p x = Inr False) \<Longrightarrow>
   filter_throw p (filter keep xs) = filter_throw p xs"
  by (induction xs) (auto split: sum.splits)

lemma filter_throw_map:
  "(\<And>x. x \<in> set xs \<Longrightarrow> p (g x) = p x) \<Longrightarrow>
   filter_throw p (map g xs) =
     (case filter_throw p xs of Inl e \<Rightarrow> Inl e | Inr ys \<Rightarrow> Inr (map g ys))"
  by (induction xs) (auto split: sum.splits)

lemma insort_key_apsnd:
  "insort_key fst (apsnd h x) (map (apsnd h) xs) = map (apsnd h) (insort_key fst x xs)"
  by (induction xs) auto

lemma sort_key_apsnd:
  "sort_key fst (map (apsnd h) xs) = map (apsnd h) (sort_key fst xs)"
  by (induction xs) (auto simp: insort_key_apsnd)

lemma dirs_forEach_apsnd:
  "(\<And>child p. child \<in> snd ` set ds \<Longrightarrow> generateTree (h child) p config = generateTree child p config)
   \<Longrightarrow> dirs_forEach prefix config m i (map (apsnd h) ds) lines
       = dirs_forEach prefix config m i ds lines"
proof (induction ds arbitrary: i lines)
  case Nil
  then show ?case by simp
next
  case (Cons x ds)
  obtain d child where x: "x = (d, child)" by (cases x)
  have gt: "generateTree (h child) p config = generateTree child p config" for p
    by (rule Cons.prems) (simp add: x)
  have rest: "dirs_forEach prefix config m j (map (apsnd h) ds) ls
       = dirs_forEach prefix config m j ds ls" for j ls
    by (rule Cons.IH) (rule Cons.prems, simp)
  show ?case by (simp add: x Let_def gt rest split: sum.splits)
qed

lemma statSync_prune: "statSync (prune config node) = statSync node"
  by (cases node) simp_all

lemma is_directory_prune: "is_directory (prune config node) = is_directory node"
  by (cases node) simp_all

lemma is_listed_dir_prune:
  "is_listed_dir config (apsnd (prune config) x) = is_listed_dir config x"
  by (cases x) (simp add: is_listed_dir_def statSync_prune)

lemma is_listed_file_prune:
  "is_listed_file config (apsnd (prune config) x) = is_listed_file config x"
  by (cases x) (simp add: is_listed_file_def statSync_prune)

lemma is_listed_dir_excluded:
  "is_directory child \<Longrightarrow> f \<in> set (excludeDirs config) \<Longrightarrow> is_listed_dir config (f, child) = Inr False"
  by (cases child) (simp_all add: is_listed_dir_def)

lemma is_listed_file_directory:
  "is_directory child \<Longrightarrow> is_listed_file config (f, child) = Inr False"
  by (cases child) (simp_all add: is_listed_file_def)

lemma filter_throw_subset:
  "filter_throw p xs = Inr ys \<Longrightarrow> set ys \<subseteq> set xs"
  by (auto simp: filter_throw_Inr_iff)

lemma generateTree_prune:
  "generateTree (prune config node) prefix config = generateTree node prefix config"
proof (induction node arbitrary: prefix)
  case (Dir entries)
  let ?keep = "\<lambda>entry. \<not> excluded_dir config entry"
  let ?g = "apsnd (prune config)"
  have pr: "prune config (Dir entries) = Dir (map ?g (filter ?keep entries))"
    by (simp add: pair_map_apsnd)
  have ds: "filter_throw (is_listed_dir config) (map ?g (filter ?keep entries)) =
      (case filter_throw (is_listed_dir config) entries of
         Inl e \<Rightarrow> Inl e | Inr ys \<Rightarrow> Inr (map ?g ys))"
    by (subst filter_throw_map) (auto simp: is_listed_dir_prune is_listed_dir_excluded excluded_dir_def
          intro!: arg_cong[where f="case_sum Inl (\<lambda>ys. Inr (map ?g ys))"] filter_throw_filter)
  have fs: "filter_throw (is_listed_file config) (map ?g (filter ?keep entries)) =
      (case filter_throw (is_listed_file config) entries of
         Inl e \<Rightarrow> Inl e | Inr ys \<Rightarrow> Inr (map ?g ys))"
    by (subst filter_throw_map) (auto simp: is_listed_file_prune is_listed_file_directory excluded_dir_def
          intro!: arg_cong[where f="case_sum Inl (\<lambda>ys. Inr (map ?g ys))"] filter_throw_filter)
  have rec: "dirs_forEach prefix config m i (map ?g (sort_key fst ys)) lines
       = dirs_forEach prefix config m i (sort_key fst ys) lines"
    if "filter_throw (is_listed_dir config) entries = Inr ys" for ys m i lines
  proof (rule dirs_forEach_apsnd)
    fix child p
    assume "child \<in> snd ` set (sort_key fst ys)"
    then obtain d where "(d, child) \<in> set ys" by auto
    with filter_throw_subset[OF that] have "(d, child) \<in> set entries" by auto
    moreover have "child \<in> Basic_BNFs.snds (d, child)" by simp
    ultimately show "generateTree (prune config child) p config = generateTree child p config"
      by (rule Dir.IH)
  qed
  show ?case
    unfolding pr generateTree.simps(1)[of "Dir _"] readdirSync.simps sum.case ds fs
    by (simp add: sort_key_apsnd rec Let_def split: sum.splits)
qed (simp_all)

lemma statSync_isDirectory: "statSync node = Inr st \<Longrightarrow> isDirectory st = is_directory node"
  by (cases node) auto

lemma is_directory_statSync: "is_directory node \<Longrightarrow> \<exists>st. statSync node = Inr st \<and> isDirectory st"
  by (cases node) auto

lemma getAllFiles_forEach_prune:
  "(\<And>child d fl. child \<in> snd ` set es \<Longrightarrow>
      getAllFiles (prune config child) d fl config = getAllFiles child d fl config) \<Longrightarrow>
   getAllFiles_forEach
     (map (apsnd (prune config))
        (filter (\<lambda>entry. \<not> excluded_dir config entry) es))
     dir fileList config
   = getAllFiles_forEach es dir fileList config"
proof (induction es arbitrary: fileList)
  case Nil
  then show ?case by simp
next
  case (Cons x es)
  obtain f c where x: "x = (f, c)" by (cases x)
  have gt: "getAllFiles (prune config c) d fl config = getAllFiles c d fl config" for d fl
    by (rule Cons.prems) (simp add: x)
  have rest: "getAllFiles_forEach
     (map (apsnd (prune config))
        (filter (\<lambda>entry. \<not> excluded_dir config entry) es))
     dir fl config
   = getAllFiles_forEach es dir fl config" for fl
    by (rule Cons.IH) (rule Cons.prems, simp)
  show ?case
  proof (cases "excluded_dir config (f, c)")
    case True
    then have d: "is_directory c" and e: "f \<in> set (excludeDirs config)"
      by (simp_all add: excluded_dir_def)
    from is_directory_statSync[OF d] obtain st where "statSync c = Inr st" "isDirectory st"
      by blast
    with True e show ?thesis by (simp add: x rest Let_def)
  next
    case False
    then have "\<not> (is_directory c \<and> f \<in> set (excludeDirs config))"
      by (simp add: excluded_dir_def)
    with False show ?thesis
      by (auto simp: x rest gt statSync_prune Let_def statSync_isDirectory split: sum.splits)
  qed
qed

lemma getAllFiles_prune:
  "getAllFiles (prune config node) dir fileList config = getAllFiles node dir fileList config"
proof (induction node arbitrary: dir fileList)
  case (Dir entries)
  have "getAllFiles_forEach
     (map (apsnd (prune config))
        (filter (\<lambda>entry. \<not> excluded_dir config entry) entries))
     dir fileList config
   = getAllFiles_forEach entries dir fileList config"
  proof (rule getAllFiles_forEach_prune)
    fix child d fl
    assume "child \<in> snd ` set entries"
    then obtain f where "(f, child) \<in> set entries" by auto
    moreover have "child \<in> Basic_BNFs.snds (f, child)" by simp
    ultimately show "getAllFiles (prune config child) d fl config = getAllFiles child d fl config"
      by (rule Dir.IH)
  qed
  then show ?case
    by (simp add: getAllFiles.simps(1) pair_map_apsnd)
qed (simp_all)

lemma str_includes_iff: "str_includes s t \<longleftrightarrow> (\<exists>a b. s = a @ t @ b)"
proof (induction s)
  case Nil
  then show ?case by auto
next
  case (Cons c cs)
  have "take (length t) (c # cs) = t \<longleftrightarrow> (\<exists>b. c # cs = t @ b)"
    by (metis append_eq_conv_conj append_take_drop_id)
  moreover have "(\<exists>a b. c # cs = a @ t @ b) \<longleftrightarrow> (\<exists>b. c # cs = t @ b) \<or> (\<exists>a b. cs = a @ t @ b)"
  proof
    assume "\<exists>a b. c # cs = a @ t @ b"
    then obtain a b where ab: "c # cs = a @ t @ b" by blast
    show "(\<exists>b. c # cs = t @ b) \<or> (\<exists>a b. cs = a @ t @ b)"
    proof (cases a)
      case Nil
      with ab show ?thesis by auto
    next
      case (Cons a0 as)
      with ab have "cs = as @ t @ b" by simp
      then show ?thesis by blast
    qed
  next
    assume "(\<exists>b. c # cs = t @ b) \<or> (\<exists>a b. cs = a @ t @ b)"
    then show "\<exists>a b. c # cs = a @ t @ b"
    proof
      assume "\<exists>b. c # cs = t @ b"
      then show ?thesis by (metis append_Nil)
    next
      assume "\<exists>a b. cs = a @ t @ b"
      then obtain a b where "cs = a @ t @ b" by blast
      then have "c # cs = (c # a) @ t @ b" by simp
      then show ?thesis by blast
    qed
  qed
  ultimately show ?case using Cons.IH by simp
qed

lemma split_on_nonempty: "split_on c s \<noteq> []"
  by (induction s) (auto split: list.splits)

lemma join_split_on: "join [c] (split_on c s) = s"
proof (induction s)
  case Nil
  then show ?case by simp
next
  case (Cons x xs)
  obtain t ts where sp: "split_on c xs = t # ts"
    using split_on_nonempty[of c xs] by (cases "split_on c xs") auto
  with Cons.IH have j: "join [c] (t # ts) = xs" by simp
  show ?case
  proof (cases "x = c")
    case True
    with sp j show ?thesis by simp
  next
    case False
    with sp j show ?thesis by (cases ts) simp_all
  qed
qed

lemma join_member: "x \<in> set xs \<Longrightarrow> \<exists>a b. join s xs = a @ x @ b"
proof -
  assume "x \<in> set xs"
  then obtain pre post where "xs = pre @ [x] @ post"
    by (auto simp: in_set_conv_decomp)
  with join_contains[of "[x]" s pre post] show ?thesis by simp
qed

lemma split_on_segment: "seg \<in> set (split_on c s) \<Longrightarrow> str_includes s seg"
  using join_member[of seg "split_on c s" "[c]"] by (simp add: join_split_on str_includes_iff)

lemma map_of_kept:
  "(\<And>v. (k, v) \<in> set es \<Longrightarrow> keep (k, v)) \<Longrightarrow> map_of (filter keep es) k = map_of es k"
  by (induction es) auto

lemma lookup_path_prune:
  "(\<And>seg. seg \<in> set segs \<Longrightarrow> seg \<notin> set (excludeDirs config)) \<Longrightarrow>
   lookup_path (prune config node) segs = map_option (prune config) (lookup_path node segs)"
proof (induction segs arbitrary: node)
  case Nil
  then show ?case by simp
next
  case (Cons seg segs)
  have seg: "seg \<notin> set (excludeDirs config)" by (rule Cons.prems) simp
  have rest: "lookup_path (prune config n) segs = map_option (prune config) (lookup_path n segs)" for n
    by (rule Cons.IH) (rule Cons.prems, simp)
  show ?case
  proof (cases node)
    case (Dir entries)
    have "map_of (map (apsnd (prune config))
             (filter (\<lambda>entry. \<not> excluded_dir config entry) entries)) seg
          = map_option (prune config) (map_of entries seg)"
      using seg by (simp add: map_of_map[unfolded pair_map_apsnd] map_of_kept excluded_dir_def)
    then show ?thesis
      by (simp add: Dir pair_map_apsnd rest split: option.splits)
  qed simp_all
qed

lemma readFileSync_prune:
  assumes "\<And>d. d \<in> set (excludeDirs config) \<Longrightarrow> \<not> str_includes filePath d"
  shows "readFileSync (prune config root) filePath = readFileSync root filePath"
proof -
  let ?segs = "if filePath = js ''.'' then [] else split_on 0x2F filePath"
  have "seg \<notin> set (excludeDirs config)" if "seg \<in> set ?segs" for seg
    using that assms split_on_segment[of seg "0x2F" filePath] by (auto split: if_splits)
  from lookup_path_prune[of ?segs config root, OF this]
  have l: "lookup_path (prune config root) ?segs = map_option (prune config) (lookup_path root ?segs)"
    by blast
  show ?thesis
  proof (cases "lookup_path root ?segs")
    case None
    with l show ?thesis by (simp add: readFileSync_def)
  next
    case (Some n)
    with l show ?thesis by (cases n) (simp_all add: readFileSync_def)
  qed
qed

lemma select_files_no_excluded_dir:
  "p \<in> set (select_files config all) \<Longrightarrow> d \<in> set (excludeDirs config) \<Longrightarrow> \<not> str_includes p d"
  by (auto simp: select_files_def list_ex_iff)

lemma spec_block_prune:
  "p \<in> set (select_files config all) \<Longrightarrow>
   spec_block unicode_lower config (prune config root) p = spec_block unicode_lower config root p"
  using readFileSync_prune[of config p root] select_files_no_excluded_dir[of p config all]
  by (simp add: spec_block_def)

lemma output_lines_prune: "output_lines unicode_lower config (prune config root) = output_lines unicode_lower config root"
proof (cases "generateTree root [] config")
  case (Inl e)
  then show ?thesis
    by (simp add: output_lines_Inl_tree generateTree_prune)
next
  case t: (Inr tree)
  show ?thesis
  proof (cases "getAllFiles root (js ''.'') [] config")
    case (Inl e)
    with t show ?thesis
      by (simp add: output_lines_Inl_files generateTree_prune getAllFiles_prune)
  next
    case a: (Inr all)
    have "concat (map (spec_block unicode_lower config (prune config root)) (select_files config all))
        = concat (map (spec_block unicode_lower config root) (select_files config all))"
      by (rule arg_cong[where f=concat], rule map_cong) (simp_all add: spec_block_prune)
    with t a show ?thesis
      by (simp add: output_lines_blocks generateTree_prune getAllFiles_prune)
  qed
qed

lemma excluded_dir_prune: "excluded_dir config (f, prune config child) = excluded_dir config (f, child)"
  by (simp add: excluded_dir_def is_directory_prune)

lemma prune_has_no_excluded_dir: "\<not> has_excluded_dir config (prune config node)"
proof (induction node)
  case (Dir entries)
  have "\<not> excluded_dir config (f, prune config child) \<and> \<not> has_excluded_dir config (prune config child)"
    if "(f, child) \<in> set entries" "\<not> excluded_dir config (f, child)" for f child
  proof -
    have "child \<in> Basic_BNFs.snds (f, child)" by simp
    from Dir.IH[OF that(1) this] that(2) show ?thesis by (simp add: excluded_dir_prune)
  qed
  then show ?case by auto
qed simp_all

lemma merge_no_options: "merge_config c no_options = c"
  by (simp add: merge_config_def no_options_def)

subsection \<open>What the collector lists\<close>

lemma getAllFiles_forEach_grows:
  "(\<And>child d fl out. child \<in> snd ` set es \<Longrightarrow> getAllFiles child d fl config = Inr out \<Longrightarrow> set fl \<subseteq> set out)
   \<Longrightarrow> getAllFiles_forEach es dir fileList config = Inr out \<Longrightarrow> set fileList \<subseteq> set out"
proof (induction es arbitrary: fileList)
  case Nil
  then show ?case by simp
next
  case (Cons x es)
  obtain f c where x: "x = (f, c)" by (cases x)
  have child: "set fl \<subseteq> set out'" if "getAllFiles c d fl config = Inr out'" for d fl out'
    using Cons.prems(1)[of c d fl out'] that by (simp add: x)
  have rest: "set fl \<subseteq> set out" if "getAllFiles_forEach es dir fl config = Inr out" for fl
  proof (rule Cons.IH[OF _ that])
    fix child d fl' out'
    assume "child \<in> snd ` set es" "getAllFiles child d fl' config = Inr out'"
    then show "set fl' \<subseteq> set out'"
      using Cons.prems(1)[of child d fl' out'] by simp
  qed
  from Cons.prems(2) show ?case
    by (auto simp: x Let_def split: sum.splits if_splits dest!: rest child)
qed

lemma getAllFiles_grows:
  "getAllFiles node dir fileList config = Inr out \<Longrightarrow> set fileList \<subseteq> set out"
proof (induction node arbitrary: dir fileList out)
  case (Dir entries)
  have "set fl \<subseteq> set out'"
    if "child \<in> snd ` set entries" "getAllFiles child d fl config = Inr out'" for child d fl out'
  proof -
    from that(1) obtain f where "(f, child) \<in> set entries" by auto
    moreover have "child \<in> Basic_BNFs.snds (f, child)" by simp
    ultimately show ?thesis using that(2) by (rule Dir.IH)
  qed
  from getAllFiles_forEach_grows[of entries config dir fileList out, OF this] Dir.prems
  show ?case by (simp add: getAllFiles.simps(1))
qed (simp_all add: getAllFiles.simps(1))

lemma getAllFiles_forEach_collects_file:
  "(f, c) \<in> set es \<Longrightarrow> \<not> is_directory c \<Longrightarrow>
   getAllFiles_forEach es dir fileList config = Inr out \<Longrightarrow> path_join dir f \<in> set out"
proof (induction es arbitrary: fileList)
  case Nil
  then show ?case by simp
next
  case (Cons x es)
  obtain g k where x: "x = (g, k)" by (cases x)
  have grows: "set fl \<subseteq> set out" if "getAllFiles_forEach es dir fl config = Inr out" for fl
    using getAllFiles_forEach_grows[OF getAllFiles_grows that] .
  show ?case
  proof (cases "x = (f, c)")
    case True
    with Cons.prems(2,3) show ?thesis
      by (auto simp: x Let_def statSync_isDirectory split: sum.splits if_splits dest!: grows)
  next
    case False
    with Cons.prems(1) have "(f, c) \<in> set es" by simp
    note ih = Cons.IH[OF this Cons.prems(2)]
    from Cons.prems(3) show ?thesis
      by (auto simp: x Let_def split: sum.splits if_splits dest!: ih)
  qed
qed

lemma getAllFiles_forEach_descends:
  "(d, c) \<in> set es \<Longrightarrow> is_directory c \<Longrightarrow> d \<notin> set (excludeDirs config) \<Longrightarrow>
   getAllFiles_forEach es dir fileList config = Inr out \<Longrightarrow>
   \<exists>fl out'. getAllFiles c (path_join dir d) fl config = Inr out' \<and> set out' \<subseteq> set out"
proof (induction es arbitrary: fileList)
  case Nil
  then show ?case by simp
next
  case (Cons x es)
  obtain g k where x: "x = (g, k)" by (cases x)
  have grows: "set fl \<subseteq> set out" if "getAllFiles_forEach es dir fl config = Inr out" for fl
    using getAllFiles_forEach_grows[OF getAllFiles_grows that] .
  show ?case
  proof (cases "x = (d, c)")
    case True
    from Cons.prems(2) obtain st where st: "statSync c = Inr st" "isDirectory st"
      using is_directory_statSync by blast
    with True Cons.prems(3,4) obtain out' where
      o: "getAllFiles c (path_join dir d) fileList config = Inr out'"
         "getAllFiles_forEach es dir out' config = Inr out"
      by (auto simp: x Let_def split: sum.splits)
    from grows[OF o(2)] o(1) show ?thesis by blast
  next
    case False
    with Cons.prems(1) have "(d, c) \<in> set es" by simp
    note ih = Cons.IH[OF this Cons.prems(2,3)]
    from Cons.prems(4) show ?thesis
      by (auto simp: x Let_def split: sum.splits if_splits dest!: ih)
  qed
qed

lemma reaches_collects:
  "reaches config node dir node' dir' \<Longrightarrow> node' = Dir es' \<Longrightarrow> (f, c) \<in> set es' \<Longrightarrow>
   \<not> is_directory c \<Longrightarrow> getAllFiles node dir fileList config = Inr out \<Longrightarrow>
   path_join dir' f \<in> set out"
proof (induction arbitrary: fileList out rule: reaches.induct)
  case (here config node dir)
  then show ?case
    by (auto simp: getAllFiles.simps(1) dest: getAllFiles_forEach_collects_file)
next
  case (below d child entries config dir node' dir')
  from below.prems(4) have "getAllFiles_forEach entries dir fileList config = Inr out"
    by (simp add: getAllFiles.simps(1))
  from getAllFiles_forEach_descends[OF below.hyps(1-3) this] obtain fl out' where
    o: "getAllFiles child (path_join dir d) fl config = Inr out'" "set out' \<subseteq> set out"
    by blast
  from below.IH[OF below.prems(1-3) o(1)] o(2) show ?case by blast
qed

subsection \<open>The lines of a rendered directory\<close>

lemma spec_file_lines_member:
  "l \<in> set (spec_file_lines prefix files n) \<Longrightarrow>
   \<exists>f \<in> set files. l = prefix @ branch_tee @ f \<or> l = prefix @ branch_last @ f"
proof -
  assume "l \<in> set (spec_file_lines prefix files n)"
  then obtain k f where kf: "(k, f) \<in> set (enumerate 0 files)" and
    l: "l = prefix @ (if Suc k = length files + n then branch_last else branch_tee) @ f"
    by (auto simp: spec_file_lines_def)
  from kf have "f \<in> set files" by (auto simp: in_set_enumerate_eq)
  with l show ?thesis by (cases "Suc k = length files + n") auto
qed

lemma spec_file_lines_shows:
  "f \<in> set files \<Longrightarrow>
   prefix @ branch_tee @ f \<in> set (spec_file_lines prefix files n) \<or>
   prefix @ branch_last @ f \<in> set (spec_file_lines prefix files n)"
proof -
  assume "f \<in> set files"
  then obtain k where k: "k < length files" "files ! k = f" by (auto simp: in_set_conv_nth)
  then have "(k, f) \<in> set (enumerate 0 files)" by (simp add: in_set_enumerate_eq)
  then have "(\<lambda>(k, f). prefix @ (if Suc k = length files + n then branch_last else branch_tee) @ f) (k, f)
      \<in> set (spec_file_lines prefix files n)"
    unfolding spec_file_lines_def set_map by (rule imageI)
  then show ?thesis by (auto split: if_splits)
qed

lemma generateTree_Dir_lines:
  assumes "generateTree (Dir entries) prefix config = Inr lines"
  shows "\<exists>rest. lines =
      spec_file_lines prefix (eligible_files config entries) (length (eligible_dirs config entries))
      @ rest \<and>
      (\<forall>l \<in> set rest. \<exists>(d, child) \<in> set (eligible_dirs config entries).
          l = prefix @ branch_tee @ d @ js ''/'' \<or> l = prefix @ branch_last @ d @ js ''/'' \<or>
          (\<exists>sub. generateTree child (prefix @ indent_blank) config = Inr sub \<and> l \<in> set sub) \<or>
          (\<exists>sub. generateTree child (prefix @ indent_bar) config = Inr sub \<and> l \<in> set sub))"
proof -
  let ?ds = "eligible_dirs config entries"
  let ?m = "length ?ds"
  let ?line = "\<lambda>(k, (d, child)).
        (prefix @ (if int k = int ?m - 1 then branch_last else branch_tee) @ d @ js ''/'')
        # projr (generateTree child (prefix @ (if int k = int ?m - 1 then indent_blank else indent_bar)) config)"
  note run = dirs_forEach_Inr[OF generateTree_Dir_InrD[OF assms]]
  have "\<exists>(d, child) \<in> set ?ds.
          l = prefix @ branch_tee @ d @ js ''/'' \<or> l = prefix @ branch_last @ d @ js ''/'' \<or>
          (\<exists>sub. generateTree child (prefix @ indent_blank) config = Inr sub \<and> l \<in> set sub) \<or>
          (\<exists>sub. generateTree child (prefix @ indent_bar) config = Inr sub \<and> l \<in> set sub)"
    if "l \<in> set (concat (map ?line (enumerate 0 ?ds)))" for l
  proof -
    from that obtain k d child where
      k: "(k, (d, child)) \<in> set (enumerate 0 ?ds)" and l: "l \<in> set (?line (k, (d, child)))"
      by auto
    from k have dc: "(d, child) \<in> set ?ds" by (auto simp: in_set_enumerate_eq dest: nth_mem)
    from run k obtain sub where
      sub: "generateTree child (prefix @ (if int k = int ?m - 1 then indent_blank else indent_bar)) config = Inr sub"
      by (cases "generateTree child (prefix @ (if int k = int ?m - 1 then indent_blank else indent_bar)) config")
         auto
    from l sub have "l = prefix @ branch_tee @ d @ js ''/'' \<or> l = prefix @ branch_last @ d @ js ''/'' \<or>
          (\<exists>sub. generateTree child (prefix @ indent_blank) config = Inr sub \<and> l \<in> set sub) \<or>
          (\<exists>sub. generateTree child (prefix @ indent_bar) config = Inr sub \<and> l \<in> set sub)"
      by (auto split: if_splits)
    with dc show ?thesis by blast
  qed
  with run show ?thesis by blast
qed

lemma generateTree_lines_prefix:
  "generateTree node prefix config = Inr lines \<Longrightarrow> l \<in> set lines \<Longrightarrow> take (length prefix) l = prefix"
proof (induction node arbitrary: prefix lines l)
  case (Dir entries)
  from generateTree_Dir_lines[OF Dir.prems(1)] obtain rest where
    lines: "lines = spec_file_lines prefix (eligible_files config entries)
              (length (eligible_dirs config entries)) @ rest" and
    rest: "\<forall>l \<in> set rest. \<exists>(d, child) \<in> set (eligible_dirs config entries).
          l = prefix @ branch_tee @ d @ js ''/'' \<or> l = prefix @ branch_last @ d @ js ''/'' \<or>
          (\<exists>sub. generateTree child (prefix @ indent_blank) config = Inr sub \<and> l \<in> set sub) \<or>
          (\<exists>sub. generateTree child (prefix @ indent_bar) config = Inr sub \<and> l \<in> set sub)"
    by blast
  from Dir.prems(2) lines consider
    (in_files) "l \<in> set (spec_file_lines prefix (eligible_files config entries)
              (length (eligible_dirs config entries)))" | (in_rest) "l \<in> set rest"
    by auto
  then show ?case
  proof cases
    case in_files
    from spec_file_lines_member[OF this] show ?thesis by auto
  next
    case in_rest
    with rest obtain d child where dc: "(d, child) \<in> set (eligible_dirs config entries)" and
      l: "l = prefix @ branch_tee @ d @ js ''/'' \<or> l = prefix @ branch_last @ d @ js ''/'' \<or>
          (\<exists>sub. generateTree child (prefix @ indent_blank) config = Inr sub \<and> l \<in> set sub) \<or>
          (\<exists>sub. generateTree child (prefix @ indent_bar) config = Inr sub \<and> l \<in> set sub)"
      by blast
    from dc have e: "(d, child) \<in> set entries" by (simp add: eligible_dirs_set)
    have s: "child \<in> Basic_BNFs.snds (d, child)" by simp
    have "take (length prefix) l = prefix"
      if "generateTree child (prefix @ ind) config = Inr sub" "l \<in> set sub" for ind sub
    proof -
      from Dir.IH[OF e s that] have "take (length (prefix @ ind)) l = prefix @ ind" .
      then have "take (length prefix) (take (length (prefix @ ind)) l) = take (length prefix) (prefix @ ind)"
        by simp
      then show ?thesis by (simp add: min_def)
    qed
    with l show ?thesis by auto
  qed
qed (simp_all add: generateTree.simps(1))

subsection \<open>The module's own file\<close>

lemma is_listed_own_file:
  "own_file entry \<Longrightarrow> is_listed_dir config entry = Inr False \<and> is_listed_file config entry = Inr False"
  by (cases entry; cases "snd entry") (auto simp: own_file_def is_listed_dir_def is_listed_file_def)

lemma generateTree_without_own_file:
  "generateTree (Dir (filter (\<lambda>entry. \<not> own_file entry) entries)) prefix config
     = generateTree (Dir entries) prefix config"
proof -
  have ds: "filter_throw (is_listed_dir config) (filter (\<lambda>entry. \<not> own_file entry) entries)
      = filter_throw (is_listed_dir config) entries"
    by (rule filter_throw_filter) (simp add: is_listed_own_file)
  have fs: "filter_throw (is_listed_file config) (filter (\<lambda>entry. \<not> own_file entry) entries)
      = filter_throw (is_listed_file config) entries"
    by (rule filter_throw_filter) (simp add: is_listed_own_file)
  show ?thesis
    unfolding generateTree.simps(1)[of "Dir _"] readdirSync.simps sum.case ds fs ..
qed

lemma own_not_eligible: "own_basename \<notin> set (eligible_files config entries)"
  by (auto simp: eligible_files_def)

lemma glyph_cancel:
  "branch_tee @ a = branch_tee @ b \<longleftrightarrow> a = b"
  "branch_last @ a = branch_last @ b \<longleftrightarrow> a = b"
  "branch_tee @ a \<noteq> branch_last @ b"
  "branch_last @ a \<noteq> branch_tee @ b"
  by (simp_all add: branch_tee_def branch_last_def)

lemma glyph_not_indent:
  "take (length indent_blank) (branch_tee @ a) \<noteq> indent_blank"
  "take (length indent_blank) (branch_last @ a) \<noteq> indent_blank"
  "take (length indent_bar) (branch_tee @ a) \<noteq> indent_bar"
  "take (length indent_bar) (branch_last @ a) \<noteq> indent_bar"
  by (simp_all add: branch_tee_def branch_last_def indent_blank_def indent_bar_def)

lemma own_basename_no_slash: "d @ js ''/'' \<noteq> own_basename"
proof
  assume "d @ js ''/'' = own_basename"
  then have "last (d @ js ''/'') = last own_basename" by simp
  then show False by (simp add: own_basename_def)
qed

lemma generateTree_no_own_line:
  assumes "generateTree (Dir entries) prefix config = Inr lines"
    and g: "g = branch_tee \<or> g = branch_last"
  shows "prefix @ g @ own_basename \<notin> set lines"
proof
  assume mem: "prefix @ g @ own_basename \<in> set lines"
  from generateTree_Dir_lines[OF assms(1)] obtain rest where
    lines: "lines = spec_file_lines prefix (eligible_files config entries)
              (length (eligible_dirs config entries)) @ rest" and
    rest: "\<forall>l \<in> set rest. \<exists>(d, child) \<in> set (eligible_dirs config entries).
          l = prefix @ branch_tee @ d @ js ''/'' \<or> l = prefix @ branch_last @ d @ js ''/'' \<or>
          (\<exists>sub. generateTree child (prefix @ indent_blank) config = Inr sub \<and> l \<in> set sub) \<or>
          (\<exists>sub. generateTree child (prefix @ indent_bar) config = Inr sub \<and> l \<in> set sub)"
    by blast
  from mem lines consider
    (in_files) "prefix @ g @ own_basename \<in> set (spec_file_lines prefix (eligible_files config entries)
              (length (eligible_dirs config entries)))" | (in_rest) "prefix @ g @ own_basename \<in> set rest"
    by auto
  then show False
  proof cases
    case in_files
    from spec_file_lines_member[OF this] obtain f where
      "f \<in> set (eligible_files config entries)"
      "g @ own_basename = branch_tee @ f \<or> g @ own_basename = branch_last @ f"
      by auto
    with g own_not_eligible[of config entries] show False
      by (auto simp: glyph_cancel)
  next
    case in_rest
    with rest obtain d child where
      l: "prefix @ g @ own_basename = prefix @ branch_tee @ d @ js ''/'' \<or>
          prefix @ g @ own_basename = prefix @ branch_last @ d @ js ''/'' \<or>
          (\<exists>sub. generateTree child (prefix @ indent_blank) config = Inr sub \<and>
                 prefix @ g @ own_basename \<in> set sub) \<or>
          (\<exists>sub. generateTree child (prefix @ indent_bar) config = Inr sub \<and>
                 prefix @ g @ own_basename \<in> set sub)"
      by blast
    have sub: False
      if "generateTree child (prefix @ ind) config = Inr sub" "prefix @ g @ own_basename \<in> set sub"
        "ind = indent_blank \<or> ind = indent_bar" for ind sub
    proof -
      from generateTree_lines_prefix[OF that(1,2)]
      have "take (length ind) (g @ own_basename) = ind" by simp
      with that(3) g glyph_not_indent[of own_basename] show False by metis
    qed
    from l g own_basename_no_slash[of d] sub show False
      by (auto simp: glyph_cancel)
  qed
qed

lemma own_not_selected: "own_basename \<notin> set (select_files config all)"
  by (simp add: select_files_def)

lemma statSync_drop_own: "statSync (drop_own node) = statSync node"
  by (cases node) simp_all

lemma is_regular_drop_own: "is_regular (drop_own node) = is_regular node"
  by (cases node) simp_all

lemma is_listed_dir_drop_own: "is_listed_dir config (apsnd drop_own x) = is_listed_dir config x"
  by (cases x) (simp add: is_listed_dir_def statSync_drop_own)

lemma is_listed_file_drop_own: "is_listed_file config (apsnd drop_own x) = is_listed_file config x"
  by (cases x) (simp add: is_listed_file_def statSync_drop_own)

lemma generateTree_drop_own:
  "generateTree (drop_own node) prefix config = generateTree node prefix config"
proof (induction node arbitrary: prefix)
  case (Dir entries)
  let ?keep = "\<lambda>entry. \<not> own_file entry"
  let ?g = "apsnd drop_own"
  have pr: "drop_own (Dir entries) = Dir (map ?g (filter ?keep entries))"
    by (simp add: pair_map_apsnd)
  have ds: "filter_throw (is_listed_dir config) (map ?g (filter ?keep entries)) =
      (case filter_throw (is_listed_dir config) entries of
         Inl e \<Rightarrow> Inl e | Inr ys \<Rightarrow> Inr (map ?g ys))"
    by (subst filter_throw_map) (auto simp: is_listed_dir_drop_own is_listed_own_file
          intro!: arg_cong[where f="case_sum Inl (\<lambda>ys. Inr (map ?g ys))"] filter_throw_filter)
  have fs: "filter_throw (is_listed_file config) (map ?g (filter ?keep entries)) =
      (case filter_throw (is_listed_file config) entries of
         Inl e \<Rightarrow> Inl e | Inr ys \<Rightarrow> Inr (map ?g ys))"
    by (subst filter_throw_map) (auto simp: is_listed_file_drop_own is_listed_own_file
          intro!: arg_cong[where f="case_sum Inl (\<lambda>ys. Inr (map ?g ys))"] filter_throw_filter)
  have rec: "dirs_forEach prefix config m i (map ?g (sort_key fst ys)) lines
       = dirs_forEach prefix config m i (sort_key fst ys) lines"
    if "filter_throw (is_listed_dir config) entries = Inr ys" for ys m i lines
  proof (rule dirs_forEach_apsnd)
    fix child p
    assume "child \<in> snd ` set (sort_key fst ys)"
    then obtain d where "(d, child) \<in> set ys" by auto
    with filter_throw_subset[OF that] have "(d, child) \<in> set entries" by auto
    moreover have "child \<in> Basic_BNFs.snds (d, child)" by simp
    ultimately show "generateTree (drop_own child) p config = generateTree child p config"
      by (rule Dir.IH)
  qed
  show ?case
    unfolding pr generateTree.simps(1)[of "Dir _"] readdirSync.simps sum.case ds fs
    by (simp add: sort_key_apsnd rec Let_def split: sum.splits)
qed (simp_all)

lemma own_file_drop_own: "own_file (f, drop_own child) = own_file (f, child)"
  by (simp add: own_file_def is_regular_drop_own)

lemma drop_own_has_no_own_file: "\<not> has_own_file (drop_own node)"
proof (induction node)
  case (Dir entries)
  have "\<not> own_file (f, drop_own child) \<and> \<not> has_own_file (drop_own child)"
    if "(f, child) \<in> set entries" "\<not> own_file (f, child)" for f child
  proof -
    have "child \<in> Basic_BNFs.snds (f, child)" by simp
    from Dir.IH[OF that(1) this] that(2) show ?thesis by (simp add: own_file_drop_own)
  qed
  then show ?case by auto
qed simp_all

lemma select_files_iff:
  "p \<in> set (select_files config all) \<longleftrightarrow>
     p \<in> set all \<and> (\<forall>d \<in> set (excludeDirs config). \<not> str_includes p d) \<and>
     (\<forall>x \<in> set (excludeFiles config). \<not> str_includes p x) \<and> p \<noteq> own_basename"
  by (auto simp: select_files_def list_ex_iff)

lemma path_join_not_own: "dir \<noteq> js ''.'' \<Longrightarrow> path_join dir f \<noteq> f"
  by (simp add: path_join_def)

lemma eligible_files_member:
  "(f, child) \<in> set entries \<Longrightarrow> is_regular child \<Longrightarrow> f \<notin> set (excludeFiles config) \<Longrightarrow>
   f \<noteq> own_basename \<Longrightarrow> f \<in> set (eligible_files config entries)"
  by (force simp: eligible_files_def)

lemma generateTree_shows_file:
  assumes "generateTree (Dir entries) prefix config = Inr lines"
    and "f \<in> set (eligible_files config entries)"
  shows "prefix @ branch_tee @ f \<in> set lines \<or> prefix @ branch_last @ f \<in> set lines"
proof -
  from generateTree_Dir_lines[OF assms(1)] obtain rest where
    "lines = spec_file_lines prefix (eligible_files config entries)
              (length (eligible_dirs config entries)) @ rest"
    by blast
  with spec_file_lines_shows[OF assms(2), of prefix "length (eligible_dirs config entries)"]
  show ?thesis by auto
qed

subsection \<open>Reading a collected path\<close>









subsection \<open>The extension of a path\<close>

lemma ext_step_first:
  "c \<noteq> 0x2F \<Longrightarrow> ext_step n c ext_init = Inr (scan_state n [c])"
  by (simp add: ext_step_def ext_init_def scan_state_def Let_def)

lemma ext_step_scan:
  "c \<noteq> 0x2F \<Longrightarrow> x \<noteq> [] \<Longrightarrow> ext_step n c (scan_state (Suc n) x) = Inr (scan_state n (c # x))"
  by (cases x) (auto simp: ext_step_def scan_state_def Let_def split: option.splits)

lemma ext_loop_basename:
  "x \<noteq> [] \<Longrightarrow> 0x2F \<notin> set x \<Longrightarrow>
   ext_loop (pre @ x) (length pre + length x) ext_init
     = ext_loop (pre @ x) (length pre) (scan_state (length pre) x)"
proof (induction x arbitrary: pre)
  case Nil
  then show ?case by simp
next
  case (Cons c x)
  show ?case
  proof (cases "x = []")
    case True
    with Cons.prems show ?thesis by (simp add: ext_step_first)
  next
    case False
    from Cons.prems have c: "c \<noteq> 0x2F" and x: "0x2F \<notin> set x" by auto
    from Cons.IH[OF False x, of "pre @ [c]"]
    have "ext_loop (pre @ c # x) (Suc (length pre + length x)) ext_init
            = ext_loop (pre @ c # x) (Suc (length pre)) (scan_state (Suc (length pre)) x)"
      by simp
    then show ?thesis by (simp add: ext_step_scan[OF c False])
  qed
qed

lemma ext_loop_dir:
  "d = [] \<or> last d = 0x2F \<Longrightarrow> \<not> matchedSlash s \<Longrightarrow>
   ext_loop (d @ x) (length d) s = s\<lparr>startPart := (if d = [] then startPart s else length d)\<rparr>"
proof (cases "d = []")
  case True
  then show ?thesis by simp
next
  case False
  assume "d = [] \<or> last d = 0x2F" "\<not> matchedSlash s"
  with False obtain d' where d: "d = d' @ [0x2F]"
    by (metis append_butlast_last_id)
  with \<open>\<not> matchedSlash s\<close> show ?thesis
    by (simp add: ext_step_def nth_append)
qed

lemma ext_loop_path:
  assumes "d = [] \<or> last d = 0x2F" "x \<noteq> []" "0x2F \<notin> set x"
  shows "ext_loop (d @ x) (length (d @ x)) ext_init = (scan_state (length d) x)\<lparr>startPart := length d\<rparr>"
proof -
  have "ext_loop (d @ x) (length (d @ x)) ext_init = ext_loop (d @ x) (length d) (scan_state (length d) x)"
    using ext_loop_basename[OF assms(2,3), of d] by simp
  also have "\<dots> = (scan_state (length d) x)\<lparr>startPart := (if d = [] then startPart (scan_state (length d) x) else length d)\<rparr>"
    by (rule ext_loop_dir[OF assms(1)]) (simp add: scan_state_def)
  also have "\<dots> = (scan_state (length d) x)\<lparr>startPart := length d\<rparr>"
    by (simp add: scan_state_def)
  finally show ?thesis .
qed

lemma last_dot_none: "0x2E \<notin> set x \<Longrightarrow> last_dot x = None"
  by (induction x) auto

lemma last_dot_append: "0x2E \<notin> set e \<Longrightarrow> last_dot (stem @ 0x2E # e) = Some (length stem)"
  by (induction stem) (auto simp: last_dot_none)

lemma extname_dotted:
  assumes "d = [] \<or> last d = 0x2F" "stem \<noteq> []" "0x2F \<notin> set (stem @ e)" "0x2E \<notin> set e"
    and "e \<noteq> [] \<or> stem \<noteq> [0x2E]"
  shows "extname (d @ stem @ 0x2E # e) = 0x2E # e"
proof -
  have l: "ext_loop (d @ stem @ 0x2E # e) (length (d @ stem @ 0x2E # e)) ext_init
        = (scan_state (length d) (stem @ 0x2E # e))\<lparr>startPart := length d\<rparr>"
    using assms(3) by (intro ext_loop_path[OF assms(1)]) auto
  have one: "stem = [0x2E]" if "length stem = Suc 0" "hd stem = 0x2E"
    using that by (cases stem) auto
  show ?thesis
    unfolding extname_def l using assms(2,5) one
    by (auto simp: scan_state_def last_dot_append[OF assms(4)] Let_def)
qed

lemma extname_plain:
  assumes "d = [] \<or> last d = 0x2F" "name \<noteq> []" "0x2F \<notin> set name" "0x2E \<notin> set (tl name)"
  shows "extname (d @ name) = []"
proof -
  from assms(2) obtain c cs where n: "name = c # cs" by (cases name) auto
  with assms(4) have "last_dot name = None \<or> last_dot name = Some 0"
    by (simp add: last_dot_none)
  then show ?thesis
    unfolding extname_def ext_loop_path[OF assms(1-3)]
    by (auto simp: scan_state_def Let_def)
qed

section \<open>C1: the tool's own files\<close>

text \<open>
  C1, as stated, fails: with the default configuration and the report of an earlier run,
  \<^verbatim>\<open>project-structure.txt\<close>, in the scan root, the output file is a line of the rendered
  tree and has a \<^verbatim>\<open>FILE:\<close> block in the contents section.
\<close>

theorem C1_counterexample:
  "\<forall>unicode_lower.
     generateTree rerun_root [] DEFAULT_CONFIG = Inr [branch_last @ outputFile DEFAULT_CONFIG] \<and>
     \<not> isl (output_lines unicode_lower DEFAULT_CONFIG rerun_root) \<and>
     js ''FILE: '' @ outputFile DEFAULT_CONFIG \<in> set (projr (output_lines unicode_lower DEFAULT_CONFIG rerun_root))"
  unfolding rerun_root_def by (intro allI) code_simp

text \<open>
  C1, amended: what the generator leaves out is its own source file, the basename of
  \<^verbatim>\<open>__filename\<close>. In the directory rendered, the regular files of that name change nothing
  in the rendered tree, and no line of the tree is the prefix, a glyph and that name; and
  in every report the contents section is the blocks of the selected paths, none of
  which is that name, the path of the module's file in the scan root.
\<close>

theorem C1_own_source_file:
  "generateTree (Dir (filter (\<lambda>entry. \<not> own_file entry) entries)) prefix config
     = generateTree (Dir entries) prefix config \<and>
   (generateTree (Dir entries) prefix config = Inr lines \<longrightarrow>
      prefix @ branch_tee @ own_basename \<notin> set lines \<and>
      prefix @ branch_last @ own_basename \<notin> set lines) \<and>
   (output_lines unicode_lower config root = Inr out \<longrightarrow>
      (\<exists>tree all. generateTree root [] config = Inr tree \<and>
         getAllFiles root (js ''.'') [] config = Inr all \<and>
         out = report_head @ tree @ report_mid @
               concat (map (spec_block unicode_lower config root) (select_files config all)) \<and>
         own_basename \<notin> set (select_files config all)))"
proof -
  have 1: "prefix @ branch_tee @ own_basename \<notin> set lines \<and>
      prefix @ branch_last @ own_basename \<notin> set lines"
    if "generateTree (Dir entries) prefix config = Inr lines"
    using generateTree_no_own_line[OF that] by simp
  have 2: "\<exists>tree all. generateTree root [] config = Inr tree \<and>
         getAllFiles root (js ''.'') [] config = Inr all \<and>
         out = report_head @ tree @ report_mid @
               concat (map (spec_block unicode_lower config root) (select_files config all)) \<and>
         own_basename \<notin> set (select_files config all)"
    if "output_lines unicode_lower config root = Inr out"
  proof -
    from output_lines_InrD[OF that] obtain tree all where
      t: "generateTree root [] config = Inr tree" and a: "getAllFiles root (js ''.'') [] config = Inr all"
      by blast
    from output_lines_blocks[OF t a] that t a own_not_selected[of config all] show ?thesis
      by auto
  qed
  from generateTree_without_own_file 1 2 show ?thesis by blast
qed

theorem C1_own_source_file_witness:
  "generateTree own_root [] DEFAULT_CONFIG = Inr [branch_last @ js ''a.txt''] \<and>
   generateTree (Dir [(js ''a.txt'', File (Inr (js ''hi'')))]) [] DEFAULT_CONFIG = Inr [branch_last @ js ''a.txt''] \<and>
   branch_last @ own_basename \<notin> set [branch_last @ js ''a.txt''] \<and>
   output_lines id DEFAULT_CONFIG own_root =
     Inr (report_head @ [branch_last @ js ''a.txt''] @ report_mid @
          [js ''FILE: a.txt'', separator, js ''hi'', [], []])"
proof -
  have f: "filter (\<lambda>entry. \<not> own_file entry)
             [(js ''project-structure.js'', File (Inr (js ''code''))), (js ''a.txt'', File (Inr (js ''hi'')))]
           = [(js ''a.txt'', File (Inr (js ''hi'')))]"
    by (simp add: own_file_def own_basename_def)
  have t: "generateTree (Dir [(js ''project-structure.js'', File (Inr (js ''code''))), (js ''a.txt'', File (Inr (js ''hi'')))])
             [] DEFAULT_CONFIG = Inr [branch_last @ js ''a.txt'']"
    by code_simp
  have a: "getAllFiles own_root (js ''.'') [] DEFAULT_CONFIG = Inr [js ''project-structure.js'', js ''a.txt'']"
    unfolding own_root_def by code_simp
  have s: "select_files DEFAULT_CONFIG [js ''project-structure.js'', js ''a.txt''] = [js ''a.txt'']"
    by code_simp
  have b: "spec_block id DEFAULT_CONFIG own_root (js ''a.txt'') = [js ''FILE: a.txt'', separator, js ''hi'', [], []]"
    unfolding own_root_def by code_simp
  obtain out where out: "output_lines id DEFAULT_CONFIG own_root = Inr out"
    using output_lines_blocks[OF t[folded own_root_def] a] by blast
  note c = C1_own_source_file[of
      "[(js ''project-structure.js'', File (Inr (js ''code''))), (js ''a.txt'', File (Inr (js ''hi'')))]"
      "[]" DEFAULT_CONFIG "[branch_last @ js ''a.txt'']" id own_root out, unfolded f]
  have 1: "generateTree (Dir [(js ''a.txt'', File (Inr (js ''hi'')))]) [] DEFAULT_CONFIG = Inr [branch_last @ js ''a.txt'']"
    using c[THEN conjunct1] t by simp
  have 2: "branch_last @ own_basename \<notin> set [branch_last @ js ''a.txt'']"
    using c[THEN conjunct2, THEN conjunct1, rule_format, OF t] by simp
  from c[THEN conjunct2, THEN conjunct2, rule_format, OF out] obtain tree all where
    "generateTree own_root [] DEFAULT_CONFIG = Inr tree"
    "getAllFiles own_root (js ''.'') [] DEFAULT_CONFIG = Inr all"
    "out = report_head @ tree @ report_mid @
               concat (map (spec_block id DEFAULT_CONFIG own_root) (select_files DEFAULT_CONFIG all))"
    by blast
  with t[folded own_root_def] a s b out have 3: "output_lines id DEFAULT_CONFIG own_root =
     Inr (report_head @ [branch_last @ js ''a.txt''] @ report_mid @
          [js ''FILE: a.txt'', separator, js ''hi'', [], []])"
    by simp
  from t[folded own_root_def] 1 2 3 show ?thesis by (intro conjI)
qed

section \<open>C2: the layout of a directory\<close>

text \<open>
  The order of the two sorts is the order of \<^verbatim>\<open>Array.prototype.sort\<close>, by code units: a name
  that starts with a character beyond U+FFFF (here U+1F600, the code units D83D DE00)
  comes before a name that starts with U+FF5E.
\<close>

lemma generateTree_code_unit_order:
  "generateTree (Dir [([0xFF5E] @ js ''.txt'', File (Inr [])),
                      ([0xD83D, 0xDE00] @ js ''.txt'', File (Inr []))]) [] DEFAULT_CONFIG
     = Inr [branch_tee @ [0xD83D, 0xDE00] @ js ''.txt'', branch_last @ [0xFF5E] @ js ''.txt'']"
  by code_simp

text \<open>
  C2. Whenever the renderer returns for a directory, its lines are the lines of the
  eligible files, sorted by code units, followed by the lines of the eligible
  directories, sorted by code units, each directory name with \<^verbatim>\<open>/\<close> and each directory
  line followed at once by that directory's subtree; the glyph of a line is the
  last-child glyph exactly when the line is the last of the files and directories
  together; the subtree of a directory is rendered with the prefix extended by four
  spaces when it is the last directory and by the bar indent otherwise; and each of these
  subtrees was rendered without an exception.
\<close>

theorem C2_tree_layout:
  assumes "generateTree (Dir entries) prefix config = Inr lines"
  shows "lines =
           spec_file_lines prefix (eligible_files config entries)
             (length (eligible_dirs config entries)) @
           spec_dir_lines prefix (length (eligible_files config entries))
             (eligible_dirs config entries) (\<lambda>child p. projr (generateTree child p config)) \<and>
         sorted (eligible_files config entries) \<and>
         sorted (map fst (eligible_dirs config entries)) \<and>
         (\<forall>(j, (d, child)) \<in> set (enumerate 0 (eligible_dirs config entries)).
            \<not> isl (generateTree child
                     (prefix @ (if Suc j = length (eligible_dirs config entries)
                                then indent_blank else indent_bar)) config))"
proof -
  let ?ds = "eligible_dirs config entries"
  note run = dirs_forEach_Inr[OF generateTree_Dir_InrD[OF assms]]
  have glyph: "(int k = int (length ?ds) - 1) = (Suc k = length ?ds)"
    if "(k, dc) \<in> set (enumerate 0 ?ds)" for k dc
  proof -
    from that have "k < length ?ds" by (simp add: in_set_enumerate_eq)
    then show ?thesis by arith
  qed
  have same: "(\<lambda>(k, (d, child)).
        (prefix @ (if int k = int (length ?ds) - 1 then branch_last else branch_tee) @ d @ js ''/'')
        # projr (generateTree child (prefix @ (if int k = int (length ?ds) - 1 then indent_blank else indent_bar)) config)) x
      = (\<lambda>(j, (d, child)).
        (prefix @ (if Suc (length (eligible_files config entries) + j) = length (eligible_files config entries) + length ?ds then branch_last else branch_tee) @ d @ js ''/'')
        # projr (generateTree child (prefix @ (if Suc j = length ?ds then indent_blank else indent_bar)) config)) x"
    if "x \<in> set (enumerate 0 ?ds)" for x
  proof -
    obtain k d child where x: "x = (k, (d, child))" by (cases x) auto
    from glyph[of k "(d, child)"] that show ?thesis by (simp add: x)
  qed
  have 1: "lines =
           spec_file_lines prefix (eligible_files config entries) (length ?ds) @
           spec_dir_lines prefix (length (eligible_files config entries)) ?ds
             (\<lambda>child p. projr (generateTree child p config))"
    using run same unfolding spec_dir_lines_def by (simp cong: map_cong)
  have 2: "sorted (eligible_files config entries)" "sorted (map fst ?ds)"
    by (simp_all add: eligible_files_def eligible_dirs_def)
  have 3: "\<not> isl (generateTree child (prefix @ (if Suc j = length ?ds then indent_blank else indent_bar))
              config)"
    if "(j, (d, child)) \<in> set (enumerate 0 ?ds)" for j d child
    using run that glyph[OF that] by (auto split: if_splits)
  from 1 2 3 show ?thesis by blast
qed

theorem C2_tree_layout_witness:
  "generateTree example_root [] DEFAULT_CONFIG = Inr example_tree \<and>
   example_tree =
     spec_file_lines [] [js ''a.txt'', js ''b.md''] 2 @
     spec_dir_lines [] 2
       [(js ''docs'', Dir [(js ''r.md'', File (Inr (js ''r'')))]), (js ''src'', Dir [(js ''m.js'', File (Inr (js ''x'')))])]
       (\<lambda>child p. projr (generateTree child p DEFAULT_CONFIG))"
proof -
  have run: "generateTree (Dir
     [(js ''src'', Dir [(js ''m.js'', File (Inr (js ''x'')))]),
      (js ''b.md'', File (Inr (js ''b''))),
      (js ''docs'', Dir [(js ''r.md'', File (Inr (js ''r'')))]),
      (js ''a.txt'', File (Inr (js ''hi'')))]) [] DEFAULT_CONFIG = Inr example_tree"
    unfolding example_tree_def by code_simp
  have files: "eligible_files DEFAULT_CONFIG
     [(js ''src'', Dir [(js ''m.js'', File (Inr (js ''x'')))]),
      (js ''b.md'', File (Inr (js ''b''))),
      (js ''docs'', Dir [(js ''r.md'', File (Inr (js ''r'')))]),
      (js ''a.txt'', File (Inr (js ''hi'')))] = [js ''a.txt'', js ''b.md'']"
    by code_simp
  have dirs: "eligible_dirs DEFAULT_CONFIG
     [(js ''src'', Dir [(js ''m.js'', File (Inr (js ''x'')))]),
      (js ''b.md'', File (Inr (js ''b''))),
      (js ''docs'', Dir [(js ''r.md'', File (Inr (js ''r'')))]),
      (js ''a.txt'', File (Inr (js ''hi'')))] =
     [(js ''docs'', Dir [(js ''r.md'', File (Inr (js ''r'')))]), (js ''src'', Dir [(js ''m.js'', File (Inr (js ''x'')))])]"
    by code_simp
  from C2_tree_layout[OF run] run show ?thesis
    unfolding files dirs example_root_def by (simp add: numeral_2_eq_2)
qed

section \<open>C3: excluded directories\<close>

text \<open>
  C3. For every directory tree and every configuration, the rendered tree, the list of
  the collector and the whole report are those of the tree in which every directory named
  in \<open>excludeDirs\<close> has been removed with everything below it, a tree in which no such
  directory is left at any depth; and no path of the contents section contains an
  excluded directory name, as a substring or as one of its components.
\<close>

theorem C3_excluded_directories:
  "generateTree (prune config root) prefix config = generateTree root prefix config \<and>
   getAllFiles (prune config root) dir fileList config = getAllFiles root dir fileList config \<and>
   generateStructure unicode_lower (as_options config) (prune config root)
     = generateStructure unicode_lower (as_options config) root \<and>
   \<not> has_excluded_dir config (prune config root) \<and>
   (\<forall>p \<in> set (select_files config all). \<forall>d \<in> set (excludeDirs config).
      \<not> str_includes p d \<and> d \<notin> set (split_on 0x2F p))"
proof -
  have "generateStructure unicode_lower (as_options config) (prune config root)
     = generateStructure unicode_lower (as_options config) root"
    by (simp add: generateStructure_def merge_as_options output_lines_prune)
  moreover have "\<not> str_includes p d \<and> d \<notin> set (split_on 0x2F p)"
    if "p \<in> set (select_files config all)" "d \<in> set (excludeDirs config)" for p d
    using select_files_no_excluded_dir[OF that] split_on_segment[of d "0x2F" p] by blast
  ultimately show ?thesis
    using generateTree_prune getAllFiles_prune prune_has_no_excluded_dir by blast
qed

theorem C3_excluded_directories_witness:
  "prune DEFAULT_CONFIG scenario_B = Dir [(js ''a.txt'', File (Inr (js ''hi'')))] \<and>
   generateTree scenario_B [] DEFAULT_CONFIG = Inr [branch_last @ js ''a.txt''] \<and>
   generateStructure id no_options scenario_B
     = generateStructure id no_options (Dir [(js ''a.txt'', File (Inr (js ''hi'')))]) \<and>
   select_files DEFAULT_CONFIG [js ''a.txt'', js ''node_modules/x.js''] = [js ''a.txt''] \<and>
   \<not> str_includes (js ''a.txt'') (js ''node_modules'')"
proof -
  have g: "generateStructure id no_options r = generateStructure id (as_options DEFAULT_CONFIG) r" for r
    by (simp add: generateStructure_def merge_as_options merge_no_options)
  have p: "prune DEFAULT_CONFIG scenario_B = Dir [(js ''a.txt'', File (Inr (js ''hi'')))]"
    unfolding scenario_B_def by code_simp
  have t: "generateTree (Dir [(js ''a.txt'', File (Inr (js ''hi'')))]) [] DEFAULT_CONFIG
             = Inr [branch_last @ js ''a.txt'']"
    by code_simp
  have s: "select_files DEFAULT_CONFIG [js ''a.txt'', js ''node_modules/x.js''] = [js ''a.txt'']"
    by code_simp
  have d: "js ''node_modules'' \<in> set (excludeDirs DEFAULT_CONFIG)"
    by (simp add: DEFAULT_CONFIG_def)
  note c = C3_excluded_directories[of DEFAULT_CONFIG scenario_B "[]" "js ''.''" "[]" id
      "[js ''a.txt'', js ''node_modules/x.js'']", unfolded p]
  have 1: "generateTree scenario_B [] DEFAULT_CONFIG = Inr [branch_last @ js ''a.txt'']"
    using c[THEN conjunct1] t by simp
  have 2: "generateStructure id no_options scenario_B
     = generateStructure id no_options (Dir [(js ''a.txt'', File (Inr (js ''hi'')))])"
    using c[THEN conjunct2, THEN conjunct2, THEN conjunct1] by (simp add: g)
  have 3: "\<not> str_includes (js ''a.txt'') (js ''node_modules'')"
    using c[THEN conjunct2, THEN conjunct2, THEN conjunct2, THEN conjunct2, rule_format,
            of "js ''a.txt''" "js ''node_modules''"] s d by simp
  from p 1 2 s 3 show ?thesis by (intro conjI)
qed

section \<open>C4: text and binary files\<close>

text \<open>
  C4, as stated, fails: a file with an absent extension is not always classified binary.
  With \<^verbatim>\<open>textExtensions: ['']\<close> given by the caller, \<^verbatim>\<open>Makefile\<close>, whose extension is the
  empty string, is classified text, and its content is embedded in the report.
\<close>

theorem C4_counterexample:
  "\<forall>unicode_lower.
     extname (js ''Makefile'') = [] \<and>
     getFileType unicode_lower (js ''Makefile'') empty_ext_config = Text \<and>
     output_lines unicode_lower empty_ext_config scenario_C =
       Inr (report_head @ [branch_tee @ js ''Makefile'', branch_last @ js ''logo.png''] @ report_mid @
            [js ''FILE: Makefile'', separator, js ''all:'', [], []] @
            [js ''FILE: logo.png'', separator, binary_placeholder, [], []])"
  unfolding scenario_C_def empty_ext_config_def by (intro allI) code_simp

text \<open>
  C4, amended. A path is classified by its extension alone: it is text exactly when
  \<^verbatim>\<open>path.extname\<close> of the path, in lower case, is a member of \<open>textExtensions\<close>, and binary
  otherwise; so a path whose extension is absent (the empty string) is binary exactly
  when the empty string is not a member of \<open>textExtensions\<close>. For a path that ends in a
  name \<open>stem.e\<close> (the name follows a \<^verbatim>\<open>/\<close> or starts the path, \<open>stem\<close> is not empty, \<open>e\<close> has no
  \<^verbatim>\<open>.\<close>, and the name is not \<^verbatim>\<open>..\<close>) the extension is \<open>.e\<close>, and when \<open>e\<close> is ASCII the path is
  text exactly when \<open>.e\<close> with its letters \<^verbatim>\<open>A\<close> to \<^verbatim>\<open>Z\<close> in lower case is a member of
  \<open>textExtensions\<close>. For a path that ends in a name with no \<^verbatim>\<open>.\<close> after its first
  character the extension is absent. The block pushed for a binary file is its header,
  the separator, the line \<^verbatim>\<open>[BINARY FILE - CONTENT NOT DISPLAYED]\<close> and two empty lines,
  whatever the file system holds; and the contents section of a report is the blocks
  pushed for the selected files, in their order.
\<close>

theorem C4_file_type:
  "(getFileType unicode_lower filePath config = Text \<longleftrightarrow>
      toLowerCase unicode_lower (extname filePath) \<in> set (textExtensions config)) \<and>
   (getFileType unicode_lower filePath config = Binary \<longleftrightarrow>
      toLowerCase unicode_lower (extname filePath) \<notin> set (textExtensions config)) \<and>
   (extname filePath = extname other \<longrightarrow>
      getFileType unicode_lower filePath config = getFileType unicode_lower other config) \<and>
   (extname filePath = [] \<longrightarrow>
      (getFileType unicode_lower filePath config = Binary \<longleftrightarrow> [] \<notin> set (textExtensions config))) \<and>
   ((dir = [] \<or> last dir = 0x2F) \<and> stem \<noteq> [] \<and> 0x2F \<notin> set (stem @ e) \<and> 0x2E \<notin> set e \<and>
    (e \<noteq> [] \<or> stem \<noteq> [0x2E]) \<longrightarrow>
      extname (dir @ stem @ 0x2E # e) = 0x2E # e \<and>
      ((\<forall>c \<in> set e. c < 0x80) \<longrightarrow>
         (getFileType unicode_lower (dir @ stem @ 0x2E # e) config = Text \<longleftrightarrow>
            0x2E # map lower_unit e \<in> set (textExtensions config)))) \<and>
   ((dir = [] \<or> last dir = 0x2F) \<and> name \<noteq> [] \<and> 0x2F \<notin> set name \<and> 0x2E \<notin> set (tl name) \<longrightarrow>
      extname (dir @ name) = [] \<and>
      (getFileType unicode_lower (dir @ name) config = Binary \<longleftrightarrow>
         [] \<notin> set (textExtensions config))) \<and>
   (getFileType unicode_lower filePath config = Binary \<longrightarrow>
      push_file unicode_lower config root filePath output =
        output @ [js ''FILE: '' @ filePath, separator, binary_placeholder, [], []]) \<and>
   (output_lines unicode_lower config root = Inr out \<longrightarrow>
      (\<exists>tree all. generateTree root [] config = Inr tree \<and>
         getAllFiles root (js ''.'') [] config = Inr all \<and>
         out = report_head @ tree @ report_mid @
               concat (map (\<lambda>p. push_file unicode_lower config root p []) (select_files config all))))"
proof -
  have 1: "getFileType unicode_lower filePath config = Text \<longleftrightarrow>
      toLowerCase unicode_lower (extname filePath) \<in> set (textExtensions config)"
    by (simp add: getFileType_def)
  have 2: "getFileType unicode_lower filePath config = Binary \<longleftrightarrow>
      toLowerCase unicode_lower (extname filePath) \<notin> set (textExtensions config)"
    by (simp add: getFileType_def)
  have 3: "extname filePath = extname other \<longrightarrow>
      getFileType unicode_lower filePath config = getFileType unicode_lower other config"
    by (simp add: getFileType_def)
  have absent: "extname filePath = [] \<longrightarrow>
      (getFileType unicode_lower filePath config = Binary \<longleftrightarrow> [] \<notin> set (textExtensions config))"
    by (simp add: getFileType_def toLowerCase_def)
  have 4: "(dir = [] \<or> last dir = 0x2F) \<and> stem \<noteq> [] \<and> 0x2F \<notin> set (stem @ e) \<and> 0x2E \<notin> set e \<and>
       (e \<noteq> [] \<or> stem \<noteq> [0x2E]) \<longrightarrow>
      extname (dir @ stem @ 0x2E # e) = 0x2E # e \<and>
      ((\<forall>c \<in> set e. c < 0x80) \<longrightarrow>
         (getFileType unicode_lower (dir @ stem @ 0x2E # e) config = Text \<longleftrightarrow>
            0x2E # map lower_unit e \<in> set (textExtensions config)))"
  proof (rule impI)
    assume h: "(dir = [] \<or> last dir = 0x2F) \<and> stem \<noteq> [] \<and> 0x2F \<notin> set (stem @ e) \<and> 0x2E \<notin> set e \<and>
       (e \<noteq> [] \<or> stem \<noteq> [0x2E])"
    from h have x: "extname (dir @ stem @ 0x2E # e) = 0x2E # e"
      by (intro extname_dotted) simp_all
    have "toLowerCase unicode_lower (0x2E # e) = 0x2E # map lower_unit e"
      if "\<forall>c \<in> set e. c < 0x80"
      using that by (simp add: toLowerCase_def lower_unit_def)
    with x show "extname (dir @ stem @ 0x2E # e) = 0x2E # e \<and>
      ((\<forall>c \<in> set e. c < 0x80) \<longrightarrow>
         (getFileType unicode_lower (dir @ stem @ 0x2E # e) config = Text \<longleftrightarrow>
            0x2E # map lower_unit e \<in> set (textExtensions config)))"
      by (simp add: getFileType_def)
  qed
  have 5: "(dir = [] \<or> last dir = 0x2F) \<and> name \<noteq> [] \<and> 0x2F \<notin> set name \<and> 0x2E \<notin> set (tl name) \<longrightarrow>
      extname (dir @ name) = [] \<and>
      (getFileType unicode_lower (dir @ name) config = Binary \<longleftrightarrow> [] \<notin> set (textExtensions config))"
  proof (rule impI)
    assume h: "(dir = [] \<or> last dir = 0x2F) \<and> name \<noteq> [] \<and> 0x2F \<notin> set name \<and> 0x2E \<notin> set (tl name)"
    then have "extname (dir @ name) = []"
      by (intro extname_plain) simp_all
    then show "extname (dir @ name) = [] \<and>
      (getFileType unicode_lower (dir @ name) config = Binary \<longleftrightarrow> [] \<notin> set (textExtensions config))"
      by (simp add: getFileType_def toLowerCase_def)
  qed
  have 6: "getFileType unicode_lower filePath config = Binary \<longrightarrow>
      push_file unicode_lower config root filePath output =
        output @ [js ''FILE: '' @ filePath, separator, binary_placeholder, [], []]"
    by (simp add: push_file_def)
  have 7: "output_lines unicode_lower config root = Inr out \<longrightarrow>
      (\<exists>tree all. generateTree root [] config = Inr tree \<and>
         getAllFiles root (js ''.'') [] config = Inr all \<and>
         out = report_head @ tree @ report_mid @
               concat (map (\<lambda>p. push_file unicode_lower config root p []) (select_files config all)))"
  proof (rule impI)
    assume that: "output_lines unicode_lower config root = Inr out"
    from output_lines_InrD[OF that] obtain tree all where
      t: "generateTree root [] config = Inr tree" and a: "getAllFiles root (js ''.'') [] config = Inr all"
      by blast
    from output_lines_blocks[OF t a] that t a
    show "\<exists>tree all. generateTree root [] config = Inr tree \<and>
         getAllFiles root (js ''.'') [] config = Inr all \<and>
         out = report_head @ tree @ report_mid @
               concat (map (\<lambda>p. push_file unicode_lower config root p []) (select_files config all))"
      by (auto simp: push_file_block)
  qed
  from 1 2 3 absent 4 5 6 7 show ?thesis by (intro conjI)
qed

theorem C4_file_type_witness:
  "extname (js ''docs/README.MD'') = js ''.MD'' \<and>
   getFileType id (js ''docs/README.MD'') DEFAULT_CONFIG = Text \<and>
   extname (js ''Makefile'') = [] \<and>
   getFileType id (js ''Makefile'') DEFAULT_CONFIG = Binary \<and>
   getFileType id (js ''logo.png'') DEFAULT_CONFIG = Binary \<and>
   push_file id DEFAULT_CONFIG readme_root (js ''logo.png'') [] =
     [js ''FILE: logo.png'', separator, binary_placeholder, [], []] \<and>
   output_lines id DEFAULT_CONFIG readme_root =
     Inr (report_head @
          [branch_tee @ js ''Makefile'', branch_tee @ js ''logo.png'', branch_last @ js ''docs/'',
           indent_blank @ branch_last @ js ''README.MD''] @
          report_mid @
          concat (map (\<lambda>p. push_file id DEFAULT_CONFIG readme_root p [])
                    [js ''Makefile'', js ''docs/README.MD'', js ''logo.png'']))"
proof -
  have t: "generateTree readme_root [] DEFAULT_CONFIG
             = Inr [branch_tee @ js ''Makefile'', branch_tee @ js ''logo.png'', branch_last @ js ''docs/'',
                    indent_blank @ branch_last @ js ''README.MD'']"
    unfolding readme_root_def by code_simp
  have a: "getAllFiles readme_root (js ''.'') [] DEFAULT_CONFIG
             = Inr [js ''logo.png'', js ''docs/README.MD'', js ''Makefile'']"
    unfolding readme_root_def by code_simp
  have s: "select_files DEFAULT_CONFIG [js ''logo.png'', js ''docs/README.MD'', js ''Makefile'']
             = [js ''Makefile'', js ''docs/README.MD'', js ''logo.png'']"
    by code_simp
  obtain out where out: "output_lines id DEFAULT_CONFIG readme_root = Inr out"
    using output_lines_blocks[OF t a] by blast
  note r = C4_file_type[of id "js ''logo.png''" DEFAULT_CONFIG "js ''logo.png''" "js ''docs/''"
      "js ''README''" "js ''MD''" "js ''Makefile''" readme_root "[]" out]
  note m = C4_file_type[of id "js ''logo.png''" DEFAULT_CONFIG "js ''logo.png''" "[]"
      "js ''logo''" "js ''png''" "js ''Makefile''" readme_root "[]" out]
  from r[THEN conjunct2, THEN conjunct2, THEN conjunct2, THEN conjunct2, THEN conjunct1]
  have 1: "extname (js ''docs/README.MD'') = js ''.MD''"
    and 2: "getFileType id (js ''docs/README.MD'') DEFAULT_CONFIG = Text"
    by (simp_all add: DEFAULT_CONFIG_def lower_unit_def)
  from m[THEN conjunct2, THEN conjunct2, THEN conjunct2, THEN conjunct2, THEN conjunct2,
         THEN conjunct1]
  have 3: "extname (js ''Makefile'') = []"
    and 4: "getFileType id (js ''Makefile'') DEFAULT_CONFIG = Binary"
    by (simp_all add: DEFAULT_CONFIG_def)
  from m[THEN conjunct2, THEN conjunct2, THEN conjunct2, THEN conjunct2, THEN conjunct1]
  have "getFileType id (js ''logo.png'') DEFAULT_CONFIG \<noteq> Text"
    by (simp add: DEFAULT_CONFIG_def lower_unit_def)
  then have 5: "getFileType id (js ''logo.png'') DEFAULT_CONFIG = Binary"
    by (cases "getFileType id (js ''logo.png'') DEFAULT_CONFIG") simp_all
  have 6: "push_file id DEFAULT_CONFIG readme_root (js ''logo.png'') [] =
     [js ''FILE: logo.png'', separator, binary_placeholder, [], []]"
    using r[THEN conjunct2, THEN conjunct2, THEN conjunct2, THEN conjunct2, THEN conjunct2,
            THEN conjunct2, THEN conjunct1, rule_format, OF 5] by simp
  from r[THEN conjunct2, THEN conjunct2, THEN conjunct2, THEN conjunct2, THEN conjunct2,
         THEN conjunct2, THEN conjunct2, rule_format, OF out] obtain tree all where
    "generateTree readme_root [] DEFAULT_CONFIG = Inr tree"
    "getAllFiles readme_root (js ''.'') [] DEFAULT_CONFIG = Inr all"
    "out = report_head @ tree @ report_mid @
               concat (map (\<lambda>p. push_file id DEFAULT_CONFIG readme_root p []) (select_files DEFAULT_CONFIG all))"
    by blast
  with t a s out have 7: "output_lines id DEFAULT_CONFIG readme_root =
     Inr (report_head @
          [branch_tee @ js ''Makefile'', branch_tee @ js ''logo.png'', branch_last @ js ''docs/'',
           indent_blank @ branch_last @ js ''README.MD''] @
          report_mid @
          concat (map (\<lambda>p. push_file id DEFAULT_CONFIG readme_root p [])
                    [js ''Makefile'', js ''docs/README.MD'', js ''logo.png'']))"
    by simp
  from 1 2 3 4 5 6 7 show ?thesis by (intro conjI)
qed

section \<open>C5: a file that cannot be read\<close>

text \<open>
  C5. When the tree and the list of files were obtained, and reading a selected text file
  fails with an error, the report is still produced: the block of that file is its
  header, the separator, the line \<^verbatim>\<open>[ERROR READING FILE: \<close>message\<^verbatim>\<open>]\<close> and two empty lines,
  the blocks of the files before it stand before it, and every file after it has its own
  block after it, the same block it has in any report.
\<close>

theorem C5_read_failure:
  assumes "generateTree root [] config = Inr tree"
    and "getAllFiles root (js ''.'') [] config = Inr all"
    and "select_files config all = before @ filePath # after"
    and "getFileType unicode_lower filePath config = Text"
    and "readFileSync root filePath = Inl err"
  shows "output_lines unicode_lower config root =
           Inr (report_head @ tree @ report_mid @
                concat (map (spec_block unicode_lower config root) before) @
                [js ''FILE: '' @ filePath, separator, js ''[ERROR READING FILE: '' @ message err @ js '']'',
                 [], []] @
                concat (map (spec_block unicode_lower config root) after)) \<and>
         generateStructure unicode_lower (as_options config) root =
           Inr (join newline (report_head @ tree @ report_mid @
                concat (map (spec_block unicode_lower config root) before) @
                [js ''FILE: '' @ filePath, separator, js ''[ERROR READING FILE: '' @ message err @ js '']'',
                 [], []] @
                concat (map (spec_block unicode_lower config root) after))) \<and>
         push_file unicode_lower config root filePath output =
           output @ [js ''FILE: '' @ filePath, separator,
                     js ''[ERROR READING FILE: '' @ message err @ js '']'', [], []]"
proof -
  have block: "spec_block unicode_lower config root filePath =
      [js ''FILE: '' @ filePath, separator, js ''[ERROR READING FILE: '' @ message err @ js '']'', [], []]"
    using assms(4,5) by (simp add: spec_block_def getFileType_def split: if_splits)
  have lines: "output_lines unicode_lower config root =
           Inr (report_head @ tree @ report_mid @
                concat (map (spec_block unicode_lower config root) before) @
                [js ''FILE: '' @ filePath, separator, js ''[ERROR READING FILE: '' @ message err @ js '']'',
                 [], []] @
                concat (map (spec_block unicode_lower config root) after))"
    unfolding output_lines_blocks[OF assms(1,2)] assms(3) using block by simp
  have "generateStructure unicode_lower (as_options config) root =
          (case output_lines unicode_lower config root of Inl e \<Rightarrow> Inl e | Inr out \<Rightarrow> Inr (join newline out))"
    by (simp add: generateStructure_def merge_as_options)
  with lines have report: "generateStructure unicode_lower (as_options config) root =
           Inr (join newline (report_head @ tree @ report_mid @
                concat (map (spec_block unicode_lower config root) before) @
                [js ''FILE: '' @ filePath, separator, js ''[ERROR READING FILE: '' @ message err @ js '']'',
                 [], []] @
                concat (map (spec_block unicode_lower config root) after)))"
    by simp
  have push: "push_file unicode_lower config root filePath output =
           output @ [js ''FILE: '' @ filePath, separator,
                     js ''[ERROR READING FILE: '' @ message err @ js '']'', [], []]"
    unfolding push_file_block block ..
  from lines report push show ?thesis by (intro conjI)
qed

theorem C5_read_failure_witness:
  "output_lines id DEFAULT_CONFIG scenario_E =
     Inr (report_head @ [branch_tee @ js ''a.txt'', branch_tee @ js ''gone.md'', branch_last @ js ''z.txt''] @
          report_mid @
          [js ''FILE: a.txt'', separator, js ''hi'', [], []] @
          [js ''FILE: gone.md'', separator, js ''[ERROR READING FILE: ENOENT]'', [], []] @
          [js ''FILE: z.txt'', separator, js ''end'', [], []])"
proof -
  have t: "generateTree scenario_E [] DEFAULT_CONFIG
             = Inr [branch_tee @ js ''a.txt'', branch_tee @ js ''gone.md'', branch_last @ js ''z.txt'']"
    unfolding scenario_E_def by code_simp
  have a: "getAllFiles scenario_E (js ''.'') [] DEFAULT_CONFIG = Inr [js ''a.txt'', js ''gone.md'', js ''z.txt'']"
    unfolding scenario_E_def by code_simp
  have s: "select_files DEFAULT_CONFIG [js ''a.txt'', js ''gone.md'', js ''z.txt'']
             = [js ''a.txt''] @ js ''gone.md'' # [js ''z.txt'']"
    by code_simp
  have ty: "getFileType id (js ''gone.md'') DEFAULT_CONFIG = Text" by code_simp
  have rd: "readFileSync scenario_E (js ''gone.md'') = Inl (Error (js ''ENOENT''))"
    unfolding scenario_E_def by code_simp
  have b1: "spec_block id DEFAULT_CONFIG scenario_E (js ''a.txt'') = [js ''FILE: a.txt'', separator, js ''hi'', [], []]"
    unfolding scenario_E_def by code_simp
  have b2: "spec_block id DEFAULT_CONFIG scenario_E (js ''z.txt'') = [js ''FILE: z.txt'', separator, js ''end'', [], []]"
    unfolding scenario_E_def by code_simp
  from C5_read_failure[OF t a s ty rd, of "[]"] b1 b2 show ?thesis
    by simp
qed

section \<open>C6: the content of a text file\<close>



section \<open>C7: scenario A\<close>

text \<open>
  C7, as stated, fails: in scenario A the report has no line \<^verbatim>\<open>FILE: ./a.txt\<close>. The path of
  the file is \<^verbatim>\<open>path.join('.', 'a.txt')\<close>, which is \<^verbatim>\<open>a.txt\<close>.
\<close>

theorem C7_counterexample:
  "\<forall>unicode_lower.
     \<not> isl (output_lines unicode_lower DEFAULT_CONFIG scenario_A) \<and>
     js ''FILE: ./a.txt'' \<notin> set (projr (output_lines unicode_lower DEFAULT_CONFIG scenario_A))"
  unfolding scenario_A_def by (intro allI) code_simp

text \<open>
  C7, amended: in scenario A, in either order of enumeration, the rendered tree is the
  line of \<^verbatim>\<open>a.txt\<close> with the tee glyph followed by the line of \<^verbatim>\<open>sub/\<close> with the last-child
  glyph and nothing else, and the contents section is the one block of header
  \<^verbatim>\<open>FILE: a.txt\<close>, the separator, the content \<^verbatim>\<open>hi\<close> and two empty lines.
\<close>

theorem C7_scenario_A:
  "generateTree scenario_A [] DEFAULT_CONFIG = Inr [branch_tee @ js ''a.txt'', branch_last @ js ''sub/''] \<and>
   generateTree scenario_A_rev [] DEFAULT_CONFIG = Inr [branch_tee @ js ''a.txt'', branch_last @ js ''sub/''] \<and>
   generateStructure unicode_lower no_options scenario_A = Inr (join newline scenario_A_report) \<and>
   generateStructure unicode_lower no_options scenario_A_rev = Inr (join newline scenario_A_report)"
  unfolding scenario_A_def scenario_A_rev_def scenario_A_report_def by code_simp

section \<open>C8: a directory that cannot be listed\<close>

text \<open>
  C8. If a directory the traversal reaches (the scan root, or a directory that is not
  excluded inside a directory reached) cannot be listed, the renderer throws and the
  collector throws; the exception the renderer throws is caught nowhere:
  \<^verbatim>\<open>generateStructure\<close> returns no report and throws it, and \<^verbatim>\<open>executeGenerator\<close> ends with
  it, with nothing written and nothing logged.
\<close>

theorem C8_listing_failure_aborts:
  "(listing_fails (merge_config DEFAULT_CONFIG opts) root \<longrightarrow>
      (\<exists>e. generateTree root [] (merge_config DEFAULT_CONFIG opts) = Inl e) \<and>
      (\<exists>e. getAllFiles root (js ''.'') [] (merge_config DEFAULT_CONFIG opts) = Inl e) \<and>
      (\<exists>e. generateStructure unicode_lower opts root = Inl e \<and>
           executeGenerator unicode_lower opts root write_error = Threw e)) \<and>
   (generateTree root [] (merge_config DEFAULT_CONFIG opts) = Inl e \<longrightarrow>
      generateStructure unicode_lower opts root = Inl e \<and> executeGenerator unicode_lower opts root write_error = Threw e)"
proof -
  let ?config = "merge_config DEFAULT_CONFIG opts"
  have tree: "generateStructure unicode_lower opts root = Inl e \<and> executeGenerator unicode_lower opts root write_error = Threw e"
    if "generateTree root [] ?config = Inl e" for e
    using generateStructure_Inl[OF output_lines_Inl_tree[OF that]] .
  have fails: "(\<exists>e. generateTree root [] ?config = Inl e) \<and>
      (\<exists>e. getAllFiles root (js ''.'') [] ?config = Inl e) \<and>
      (\<exists>e. generateStructure unicode_lower opts root = Inl e \<and> executeGenerator unicode_lower opts root write_error = Threw e)"
    if "listing_fails ?config root"
  proof -
    from listing_fails_generateTree[OF that, of "[]"] obtain e1 where
      e1: "generateTree root [] ?config = Inl e1"
      by (cases "generateTree root [] ?config") auto
    from listing_fails_getAllFiles[OF that, of "js ''.''" "[]"] obtain e2 where
      e2: "getAllFiles root (js ''.'') [] ?config = Inl e2"
      by (cases "getAllFiles root (js ''.'') [] ?config") auto
    from e1 e2 tree[OF e1] show ?thesis by blast
  qed
  from fails tree show ?thesis by (intro conjI impI) blast+
qed

theorem C8_listing_failure_aborts_witness:
  "listing_fails DEFAULT_CONFIG locked_root \<and>
   generateTree locked_root [] DEFAULT_CONFIG = Inl (Error (js ''EACCES'')) \<and>
   (\<exists>e. getAllFiles locked_root (js ''.'') [] DEFAULT_CONFIG = Inl e) \<and>
   generateStructure id no_options locked_root = Inl (Error (js ''EACCES'')) \<and>
   executeGenerator id no_options locked_root None = Threw (Error (js ''EACCES''))"
proof -
  have m: "merge_config DEFAULT_CONFIG no_options = DEFAULT_CONFIG"
    by (simp add: merge_config_def no_options_def DEFAULT_CONFIG_def)
  have f: "listing_fails DEFAULT_CONFIG locked_root"
    unfolding locked_root_def by code_simp
  have t: "generateTree locked_root [] DEFAULT_CONFIG = Inl (Error (js ''EACCES''))"
    unfolding locked_root_def by code_simp
  note c = C8_listing_failure_aborts[of no_options locked_root id None "Error (js ''EACCES'')",
      unfolded m]
  from c[THEN conjunct1, rule_format, OF f] c[THEN conjunct2, rule_format, OF t] f t
  show ?thesis by (intro conjI) simp_all
qed

section \<open>C9: a .gitignore in the scan root\<close>

text \<open>
  C9. With the default configuration and a regular file \<^verbatim>\<open>.gitignore\<close> in the scan root,
  every report has a line for \<^verbatim>\<open>.gitignore\<close> in its tree, with one of the two glyphs, the
  collector lists the path \<^verbatim>\<open>.gitignore\<close>, and the contents section has no block for it:
  the excluded directory name \<^verbatim>\<open>.git\<close> is a substring of the path, while the name is not
  a member of \<open>excludeFiles\<close> and is not the module's name.
\<close>

theorem C9_gitignore:
  assumes "(js ''.gitignore'', child) \<in> set entries" and "is_regular child"
  shows "(output_lines unicode_lower DEFAULT_CONFIG (Dir entries) = Inr out \<longrightarrow>
            (\<exists>tree all.
               generateTree (Dir entries) [] DEFAULT_CONFIG = Inr tree \<and>
               getAllFiles (Dir entries) (js ''.'') [] DEFAULT_CONFIG = Inr all \<and>
               out = report_head @ tree @ report_mid @
                     concat (map (spec_block unicode_lower DEFAULT_CONFIG (Dir entries))
                               (select_files DEFAULT_CONFIG all)) \<and>
               (branch_tee @ js ''.gitignore'' \<in> set tree \<or> branch_last @ js ''.gitignore'' \<in> set tree) \<and>
               js ''.gitignore'' \<in> set all \<and>
               js ''.gitignore'' \<notin> set (select_files DEFAULT_CONFIG all))) \<and>
         js ''.git'' \<in> set (excludeDirs DEFAULT_CONFIG) \<and>
         str_includes (js ''.gitignore'') (js ''.git'') \<and>
         js ''.gitignore'' \<notin> set (excludeFiles DEFAULT_CONFIG) \<and>
         js ''.gitignore'' \<noteq> own_basename"
proof -
  have git: "js ''.git'' \<in> set (excludeDirs DEFAULT_CONFIG)" by (simp add: DEFAULT_CONFIG_def)
  have inc: "str_includes (js ''.gitignore'') (js ''.git'')" by simp
  have nex: "js ''.gitignore'' \<notin> set (excludeFiles DEFAULT_CONFIG)" by (simp add: DEFAULT_CONFIG_def)
  have nown: "js ''.gitignore'' \<noteq> own_basename" by (simp add: own_basename_def)
  have el: "js ''.gitignore'' \<in> set (eligible_files DEFAULT_CONFIG entries)"
    using eligible_files_member[OF assms nex nown] .
  have nd: "\<not> is_directory child" using assms(2) by (cases child) simp_all
  have 1: "\<exists>tree all.
               generateTree (Dir entries) [] DEFAULT_CONFIG = Inr tree \<and>
               getAllFiles (Dir entries) (js ''.'') [] DEFAULT_CONFIG = Inr all \<and>
               out = report_head @ tree @ report_mid @
                     concat (map (spec_block unicode_lower DEFAULT_CONFIG (Dir entries))
                               (select_files DEFAULT_CONFIG all)) \<and>
               (branch_tee @ js ''.gitignore'' \<in> set tree \<or> branch_last @ js ''.gitignore'' \<in> set tree) \<and>
               js ''.gitignore'' \<in> set all \<and>
               js ''.gitignore'' \<notin> set (select_files DEFAULT_CONFIG all)"
    if "output_lines unicode_lower DEFAULT_CONFIG (Dir entries) = Inr out"
  proof -
    from output_lines_InrD[OF that] obtain tree all where
      t: "generateTree (Dir entries) [] DEFAULT_CONFIG = Inr tree" and
      a: "getAllFiles (Dir entries) (js ''.'') [] DEFAULT_CONFIG = Inr all"
      by blast
    from generateTree_shows_file[OF t el]
    have line: "branch_tee @ js ''.gitignore'' \<in> set tree \<or> branch_last @ js ''.gitignore'' \<in> set tree"
      by simp
    from a have "getAllFiles_forEach entries (js ''.'') [] DEFAULT_CONFIG = Inr all"
      by (simp add: getAllFiles.simps(1))
    from getAllFiles_forEach_collects_file[OF assms(1) nd this]
    have col: "js ''.gitignore'' \<in> set all" by (simp add: path_join_def)
    have sel: "js ''.gitignore'' \<notin> set (select_files DEFAULT_CONFIG all)"
      using select_files_no_excluded_dir[OF _ git, of "js ''.gitignore''" all] inc by blast
    from output_lines_blocks[OF t a] that t a line col sel show ?thesis by auto
  qed
  from 1 git inc nex nown show ?thesis by blast
qed

theorem C9_gitignore_witness:
  "output_lines id DEFAULT_CONFIG gitignore_root =
     Inr (report_head @ [branch_tee @ js ''.gitignore'', branch_last @ js ''a.txt''] @ report_mid @
          [js ''FILE: a.txt'', separator, js ''hi'', [], []]) \<and>
   (branch_tee @ js ''.gitignore'' \<in> set [branch_tee @ js ''.gitignore'', branch_last @ js ''a.txt''] \<or>
    branch_last @ js ''.gitignore'' \<in> set [branch_tee @ js ''.gitignore'', branch_last @ js ''a.txt'']) \<and>
   js ''.gitignore'' \<notin> set (select_files DEFAULT_CONFIG [js ''.gitignore'', js ''a.txt''])"
proof -
  let ?entries = "[(js ''.gitignore'', File (Inr (js ''node_modules''))), (js ''a.txt'', File (Inr (js ''hi'')))]"
  have m: "(js ''.gitignore'', File (Inr (js ''node_modules''))) \<in> set ?entries" by simp
  have r: "is_regular (File (Inr (js ''node_modules'')))" by simp
  have o: "output_lines id DEFAULT_CONFIG (Dir ?entries) =
     Inr (report_head @ [branch_tee @ js ''.gitignore'', branch_last @ js ''a.txt''] @ report_mid @
          [js ''FILE: a.txt'', separator, js ''hi'', [], []])"
    by code_simp
  have t: "generateTree (Dir ?entries) [] DEFAULT_CONFIG
             = Inr [branch_tee @ js ''.gitignore'', branch_last @ js ''a.txt'']"
    by code_simp
  have a: "getAllFiles (Dir ?entries) (js ''.'') [] DEFAULT_CONFIG = Inr [js ''.gitignore'', js ''a.txt'']"
    by code_simp
  from C9_gitignore[OF m r, THEN conjunct1, rule_format, OF o] t a o show ?thesis
    unfolding gitignore_root_def by auto
qed

section \<open>C10: the module's own file in the two sections\<close>

text \<open>
  C10, as stated, fails: with the default configuration, the module's own file in the
  subdirectory \<^verbatim>\<open>.github\<close> is absent from the tree and absent from the contents section
  too, since its path contains \<^verbatim>\<open>.git\<close>.
\<close>

theorem C10_counterexample:
  "\<forall>unicode_lower.
     generateTree github_root [] DEFAULT_CONFIG = Inr [branch_last @ js ''.github/''] \<and>
     getAllFiles github_root (js ''.'') [] DEFAULT_CONFIG = Inr [js ''.github/project-structure.js''] \<and>
     select_files DEFAULT_CONFIG [js ''.github/project-structure.js''] = [] \<and>
     output_lines unicode_lower DEFAULT_CONFIG github_root
       = Inr (report_head @ [branch_last @ js ''.github/''] @ report_mid)"
  unfolding github_root_def by (intro allI) code_simp

text \<open>
  C10, amended: the renderer leaves out every regular file named as the module, in every
  directory: the rendered tree is that of the file system without these files. The
  contents section leaves out, by that name, only the path equal to it: a path is
  selected exactly when the collector lists it, it contains no excluded directory name
  and no excluded file name, and it is not the module's name. So the module's file in a
  subdirectory that the collector reaches, whose path passes the two substring filters,
  has a path different from the module's name and is selected.
\<close>

theorem C10_self_exclusion:
  "generateTree (drop_own node) prefix config = generateTree node prefix config \<and>
   \<not> has_own_file (drop_own node) \<and>
   (p \<in> set (select_files config all) \<longleftrightarrow>
      p \<in> set all \<and> (\<forall>d \<in> set (excludeDirs config). \<not> str_includes p d) \<and>
      (\<forall>x \<in> set (excludeFiles config). \<not> str_includes p x) \<and> p \<noteq> own_basename) \<and>
   (reaches config root (js ''.'') (Dir entries) dir \<and> dir \<noteq> js ''.'' \<and>
    (own_basename, File r) \<in> set entries \<and>
    getAllFiles root (js ''.'') [] config = Inr all \<and>
    (\<forall>d \<in> set (excludeDirs config). \<not> str_includes (path_join dir own_basename) d) \<and>
    (\<forall>x \<in> set (excludeFiles config). \<not> str_includes (path_join dir own_basename) x) \<longrightarrow>
      path_join dir own_basename \<noteq> own_basename \<and>
      path_join dir own_basename \<in> set (select_files config all))"
proof -
  have 4: "path_join dir own_basename \<noteq> own_basename \<and>
      path_join dir own_basename \<in> set (select_files config all)"
    if h: "reaches config root (js ''.'') (Dir entries) dir" "dir \<noteq> js ''.''"
      "(own_basename, File r) \<in> set entries"
      "getAllFiles root (js ''.'') [] config = Inr all"
      "\<forall>d \<in> set (excludeDirs config). \<not> str_includes (path_join dir own_basename) d"
      "\<forall>x \<in> set (excludeFiles config). \<not> str_includes (path_join dir own_basename) x"
  proof -
    have "\<not> is_directory (File r)" by simp
    from reaches_collects[OF h(1) refl h(3) this h(4)]
    have "path_join dir own_basename \<in> set all" .
    with h(5,6) path_join_not_own[OF h(2), of own_basename] show ?thesis
      by (simp add: select_files_iff)
  qed
  from generateTree_drop_own drop_own_has_no_own_file select_files_iff 4
  show ?thesis by blast
qed

theorem C10_self_exclusion_witness:
  "generateTree nested_own_root [] DEFAULT_CONFIG = Inr [branch_last @ js ''z/''] \<and>
   drop_own nested_own_root = Dir [(js ''z'', Dir [])] \<and>
   getAllFiles nested_own_root (js ''.'') [] DEFAULT_CONFIG = Inr [js ''z/project-structure.js''] \<and>
   js ''z/project-structure.js'' \<in> set (select_files DEFAULT_CONFIG [js ''z/project-structure.js''])"
proof -
  let ?sub = "[(own_basename, File (Inr (js ''code'')))]"
  have root: "nested_own_root = Dir [(js ''z'', Dir ?sub)]"
    by (simp add: nested_own_root_def own_basename_def)
  have d: "drop_own nested_own_root = Dir [(js ''z'', Dir [])]"
    by (simp add: nested_own_root_def own_file_def own_basename_def)
  have t: "generateTree (Dir [(js ''z'', Dir [])]) [] DEFAULT_CONFIG = Inr [branch_last @ js ''z/'']"
    by code_simp
  have a: "getAllFiles nested_own_root (js ''.'') [] DEFAULT_CONFIG = Inr [js ''z/project-structure.js'']"
    unfolding nested_own_root_def by code_simp
  have j: "path_join (js ''z'') own_basename = js ''z/project-structure.js''"
    by (simp add: path_join_def own_basename_def)
  have "reaches DEFAULT_CONFIG (Dir ?sub) (path_join (js ''.'') (js ''z'')) (Dir ?sub) (path_join (js ''.'') (js ''z''))"
    by (rule reaches.here)
  then have "reaches DEFAULT_CONFIG (Dir [(js ''z'', Dir ?sub)]) (js ''.'') (Dir ?sub) (path_join (js ''.'') (js ''z''))"
    by (rule reaches.below[rotated 3]) (simp_all add: DEFAULT_CONFIG_def)
  then have r: "reaches DEFAULT_CONFIG nested_own_root (js ''.'') (Dir ?sub) (js ''z'')"
    by (simp add: root path_join_def)
  have e: "\<forall>d \<in> set (excludeDirs DEFAULT_CONFIG). \<not> str_includes (path_join (js ''z'') own_basename) d"
    unfolding j by code_simp
  have x: "\<forall>x \<in> set (excludeFiles DEFAULT_CONFIG). \<not> str_includes (path_join (js ''z'') own_basename) x"
    unfolding j by code_simp
  note c = C10_self_exclusion[of nested_own_root "[]" DEFAULT_CONFIG _ "[js ''z/project-structure.js'']"
      nested_own_root ?sub "js ''z''" "Inr (js ''code'')"]
  have 1: "generateTree nested_own_root [] DEFAULT_CONFIG = Inr [branch_last @ js ''z/'']"
    using c[THEN conjunct1] d t by simp
  have 2: "js ''z/project-structure.js'' \<in> set (select_files DEFAULT_CONFIG [js ''z/project-structure.js''])"
    using c[THEN conjunct2, THEN conjunct2, THEN conjunct2, rule_format] r a e x j by simp
  from 1 d a 2 show ?thesis by (intro conjI)
qed

end
